theory Spec2Isabelle
  imports Complex_Main "HOL-Library.Word" "HOL-Library.Monad_Syntax"
begin

unbundle bit_operations_syntax

section \<open>Coordinate mapper\<close>

text \<open>
  Every sketch of the repository ends with the same function:
  \<^verbatim>\<open>
  uint16_t XY( uint8_t x, uint8_t y) {
    uint16_t i;
    if( matrixSerpentineLayout == false) {
      i = (y * matrixWidth) + x;
    }
    if( matrixSerpentineLayout == true) {
      if( y & 0x01) {
        uint8_t reverseX = (matrixWidth - 1) - x;
        i = (y * matrixWidth) + reverseX;
      } else {
        i = (y * matrixWidth) + x;
      }
    }
    return i;
  }
  \<close>
  \<open>matrixSerpentineLayout\<close> is a macro and \<open>matrixWidth\<close> a \<open>const uint8_t\<close>; the model
  takes both as arguments, and \<open>XY\<close> below fixes them to the sketches' values. The
  operands of \<open>*\<close>, \<open>+\<close> and \<open>-\<close> are promoted to \<open>int\<close>; the model computes in
  \<open>int\<close> and reduces modulo \<open>2^16\<close> (resp. \<open>2^8\<close>) at the conversion to \<open>uint16_t\<close>
  (resp. \<open>uint8_t\<close>). With the sketches' width 16 no intermediate value exceeds
  \<open>255 * 16 + 255\<close>, so an \<open>int\<close> of 16 bits (Arduino UNO) and one of 32 bits (ESP32)
  compute the same. The local \<open>i\<close> starts uninitialised: its start value \<open>i0\<close> is an
  argument, and \<open>XY_cfg_init\<close> shows that it never reaches the result.
\<close>

definition XY_cfg :: "bool \<Rightarrow> 8 word \<Rightarrow> 16 word \<Rightarrow> 8 word \<Rightarrow> 8 word \<Rightarrow> 16 word" where
  "XY_cfg serpentine width i0 x y =
     (let i = i0;
          i = (if serpentine = False
               then word_of_int (uint y * uint width + uint x)
               else i);
          i = (if serpentine = True
               then (if y AND 1 \<noteq> 0
                     then (let reverseX = (word_of_int ((uint width - 1) - uint x) :: 8 word)
                           in word_of_int (uint y * uint width + uint reverseX))
                     else word_of_int (uint y * uint width + uint x))
               else i)
      in i)"

definition matrixSerpentineLayout :: bool where
  "matrixSerpentineLayout = True"

definition matrixWidth :: "8 word" where
  "matrixWidth = 16"

definition matrixHeight :: "8 word" where
  "matrixHeight = 16"

definition XY :: "8 word \<Rightarrow> 8 word \<Rightarrow> 16 word" where
  "XY x y = XY_cfg matrixSerpentineLayout matrixWidth 0 x y"


section \<open>Floating-point arithmetic as a parameter\<close>

text \<open>
  The sketches compute in C \<open>float\<close> (and \<open>double\<close> where a literal such as \<open>1.\<close> promotes
  an expression). The escape-time loop is modelled over an arbitrary carrier \<open>'f\<close> with the
  five operations it applies, so that what is proved of the loop holds for every
  arithmetic, IEEE 754 with its infinities and NaNs included.
\<close>

record 'f fops =
  fmul :: "'f \<Rightarrow> 'f \<Rightarrow> 'f"
  fadd :: "'f \<Rightarrow> 'f \<Rightarrow> 'f"
  fsub :: "'f \<Rightarrow> 'f \<Rightarrow> 'f"
  fgt :: "'f \<Rightarrow> 'f \<Rightarrow> bool"
  fint :: "int \<Rightarrow> 'f"

section \<open>Escape-time evaluator\<close>

text \<open>
  The body of the two nested \<open>for\<close> loops of \<open>mandel()\<close>, for one cell:
  \<^verbatim>\<open>
      float a = x;
      float b = y;
      int iter = 0;
      while (iter < maxIterations) {
        float aa = a * a;
        float bb = b * b;
        float len = aa + bb;
        if (len > maxCalc) {
          break;  // Bail
        }
        b = 2*a*b + y;        // Julia sketches: b = 2*a*b + imAg;
        a = aa - bb + x;      //                 a = aa - bb + reAl;
        iter++;
      } // while
  \<close>
  The loop state is \<open>(a, b, iter)\<close>; \<open>c\<close> is the additive constant, which is the cell's own
  \<open>(x, y)\<close> in the Mandelbrot sketches and the globals \<open>(reAl, imAg)\<close> in the Julia ones.
  \<open>iter\<close> is a C \<open>int\<close> that is incremented only while \<open>iter < maxIterations\<close>, so the
  increment cannot overflow and \<open>int\<close> models it exactly.
\<close>

function mandel_loop ::
  "'f fops \<Rightarrow> int \<Rightarrow> 'f \<Rightarrow> 'f \<times> 'f \<Rightarrow> 'f \<times> 'f \<times> int \<Rightarrow> 'f \<times> 'f \<times> int" where
  "mandel_loop F max_iter max_calc c (a, b, iter) =
     (if iter < max_iter then
        (let aa = fmul F a a;
             bb = fmul F b b;
             len = fadd F aa bb
         in if fgt F len max_calc then (a, b, iter)
            else (let b' = fadd F (fmul F (fmul F (fint F 2) a) b) (snd c);
                      a' = fadd F (fsub F aa bb) (fst c)
                  in mandel_loop F max_iter max_calc c (a', b', iter + 1)))
      else (a, b, iter))"
  by pat_completeness auto
termination
  by (relation "measure (\<lambda>(F, max_iter, max_calc, c, a, b, iter). nat (max_iter - iter))") auto

text \<open>The iteration count of the cell that starts at \<open>p\<close>: the final \<open>iter\<close>.\<close>

definition mandel_iter :: "'f fops \<Rightarrow> int \<Rightarrow> 'f \<Rightarrow> 'f \<times> 'f \<Rightarrow> 'f \<times> 'f \<Rightarrow> int" where
  "mandel_iter F max_iter max_calc c p =
     (case mandel_loop F max_iter max_calc c (fst p, snd p, 0) of (a, b, iter) \<Rightarrow> iter)"

text \<open>Every sketch sets \<open>maxIterations = 15\<close> and the squared escape radius \<open>maxCalc\<close> to 16.\<close>

definition maxIterations :: int where
  "maxIterations = 15"

text \<open>
  The two halves of the loop body, named to state properties of the loop: the escape
  test \<open>len > maxCalc\<close> at a point, and one recurrence update \<open>z \<rightarrow> z\<^sup>2 + c\<close>. \<open>orbit\<close> is
  the point after \<open>k\<close> updates.
\<close>

definition escaped :: "'f fops \<Rightarrow> 'f \<Rightarrow> 'f \<times> 'f \<Rightarrow> bool" where
  "escaped F max_calc z =
     fgt F (fadd F (fmul F (fst z) (fst z)) (fmul F (snd z) (snd z))) max_calc"

definition update :: "'f fops \<Rightarrow> 'f \<times> 'f \<Rightarrow> 'f \<times> 'f \<Rightarrow> 'f \<times> 'f" where
  "update F c z =
     (fadd F (fsub F (fmul F (fst z) (fst z)) (fmul F (snd z) (snd z))) (fst c),
      fadd F (fmul F (fmul F (fint F 2) (fst z)) (snd z)) (snd c))"

definition orbit :: "'f fops \<Rightarrow> 'f \<times> 'f \<Rightarrow> 'f \<times> 'f \<Rightarrow> nat \<Rightarrow> 'f \<times> 'f" where
  "orbit F c p k = (update F c ^^ k) p"

section \<open>Colour mapper\<close>



datatype TBlendType = NOBLEND | LINEARBLEND








section \<open>Rounded real arithmetic\<close>

text \<open>
  Where a claim is about numbers, a finite \<open>float\<close> or \<open>double\<close> value is modelled as the
  real it denotes, and every operation as the exact operation followed by a rounding.
  The roundings and the library's \<open>sin\<close> are parameters: \<open>rnd_f\<close> rounds to \<open>float\<close>,
  \<open>rnd_d\<close> to \<open>double\<close> (the two agree on the Arduino UNO, where \<open>double\<close> is 32 bits
  wide, and differ on the ESP32). Infinities and NaNs are outside this model: a division
  by zero, which would produce one, is reported as \<open>None\<close>.
\<close>

record fpu =
  rnd_f :: "real \<Rightarrow> real"
  rnd_d :: "real \<Rightarrow> real"
  sin_d :: "real \<Rightarrow> real"

definition float_ops :: "fpu \<Rightarrow> real fops" where
  "float_ops U =
     \<lparr>fmul = (\<lambda>x y. rnd_f U (x * y)),
      fadd = (\<lambda>x y. rnd_f U (x + y)),
      fsub = (\<lambda>x y. rnd_f U (x - y)),
      fgt = (\<lambda>x y. x > y),
      fint = (\<lambda>n. rnd_f U (real_of_int n))\<rparr>"

definition fdiv :: "(real \<Rightarrow> real) \<Rightarrow> real \<Rightarrow> real \<Rightarrow> real option" where
  "fdiv r x y = (if y = 0 then None else Some (r (x / y)))"

text \<open>Exact arithmetic is one instance: no rounding, and the mathematical sine.\<close>

definition ideal :: fpu where
  "ideal = \<lparr>rnd_f = (\<lambda>x. x), rnd_d = (\<lambda>x. x), sin_d = sin\<rparr>"

text \<open>
  A second instance rounds a \<open>float\<close> to the nearest multiple of \<open>2^-25\<close> and leaves
  \<open>double\<close> exact. \<open>2^-25\<close> is the spacing of IEEE single precision on \<open>[1/4, 1/2)\<close>; on
  \<open>[1/2, 1)\<close> single precision is coarser (\<open>2^-24\<close>).
\<close>

definition float_grid :: fpu where
  "float_grid =
     \<lparr>rnd_f = (\<lambda>x. real_of_int \<lfloor>x * 2 ^ 25 + 1 / 2\<rfloor> / 2 ^ 25), rnd_d = (\<lambda>x. x), sin_d = sin\<rparr>"

text \<open>
  What the proofs below use of a rounding: it is monotone, and it leaves unchanged every
  number \<open>m / 2^e\<close> with \<open>|m| \<le> 2^24\<close> and \<open>e \<le> 24\<close> (such a number has a significand of at
  most 24 bits and an exponent far inside the range of either format). Of the
  library's sine they use that its value lies in \<open>[-1, 1]\<close>.
\<close>

definition faithful :: "(real \<Rightarrow> real) \<Rightarrow> bool" where
  "faithful r \<longleftrightarrow>
     (\<forall>x y. x \<le> y \<longrightarrow> r x \<le> r y) \<and>
     (\<forall>(m::int) (e::nat). \<bar>m\<bar> \<le> 2 ^ 24 \<longrightarrow> e \<le> 24 \<longrightarrow>
        r (real_of_int m / 2 ^ e) = real_of_int m / 2 ^ e)"

definition ieee_like :: "fpu \<Rightarrow> bool" where
  "ieee_like U \<longleftrightarrow> faithful (rnd_f U) \<and> faithful (rnd_d U) \<and> (\<forall>x. \<bar>sin_d U x\<bar> \<le> 1)"

section \<open>Window animator\<close>

text \<open>
  The globals that \<open>resize()\<close> reads and writes. The Julia sketches declare no \<open>zoOm\<close>;
  their \<open>resize()\<close> leaves the field alone.
\<close>

record globals =
  reAl :: real
  imAg :: real
  zoOm :: real
  xmin :: real
  ymin :: real
  xmax :: real
  ymax :: real
  dx :: real
  dy :: real

text \<open>
  The last two statements of every \<open>resize()\<close>:
  \<^verbatim>\<open>
  dx = (xmax - xmin) / (matrixWidth);
  dy = (ymax - ymin) / (matrixHeight);
  \<close>
  a \<open>float\<close> subtraction and a \<open>float\<close> division by the converted \<open>uint8_t\<close>.
\<close>

definition set_deltas :: "fpu \<Rightarrow> globals \<Rightarrow> globals option" where
  "set_deltas U g = do {
     dx' \<leftarrow> fdiv (rnd_f U) (rnd_f U (xmax g - xmin g)) (rnd_f U (real_of_int (uint matrixWidth)));
     dy' \<leftarrow> fdiv (rnd_f U) (rnd_f U (ymax g - ymin g)) (rnd_f U (real_of_int (uint matrixHeight)));
     Some (g\<lparr>dx := dx', dy := dy'\<rparr>)
   }"

text \<open>
  The Julia sketches (\<open>t1\<close> and \<open>t2\<close> are the two readings of \<open>millis()\<close>, an
  \<open>unsigned long\<close>; the \<open>Serial.print\<close> line is diagnostics and not modelled):
  \<^verbatim>\<open>
  reAl = -0.94299;
  imAg = 0.3162;
  reAl += sin((float)millis()/305.)/20.;
  imAg += sin((float)millis()/405.)/20.;
  \<close>
\<close>

definition julia_constant :: "fpu \<Rightarrow> 32 word \<Rightarrow> 32 word \<Rightarrow> (real \<times> real) option" where
  "julia_constant U t1 t2 = do {
     let reAl0 = rnd_f U (- rnd_d U 0.94299);
     let imAg0 = rnd_f U (rnd_d U 0.3162);
     q1 \<leftarrow> fdiv (rnd_d U) (rnd_f U (real (unat t1))) (rnd_d U 305);
     s1 \<leftarrow> fdiv (rnd_d U) (sin_d U q1) (rnd_d U 20);
     let reAl1 = rnd_f U (rnd_d U (reAl0 + s1));
     q2 \<leftarrow> fdiv (rnd_d U) (rnd_f U (real (unat t2))) (rnd_d U 405);
     s2 \<leftarrow> fdiv (rnd_d U) (sin_d U q2) (rnd_d U 20);
     let imAg1 = rnd_f U (rnd_d U (imAg0 + s2));
     Some (reAl1, imAg1)
   }"

text \<open>
  \<open>Julia-palette.ino\<close> continues with
  \<open>xmin = -.5; xmax = .5; ymin = -.5; ymax = .5;\<close>
  and the second Julia sketch with
  \<open>xmin = -1.2; xmax = 1.2; ymin = -.8; ymax = 1.;\<close>.
\<close>

definition resize_julia_palette :: "fpu \<Rightarrow> 32 word \<Rightarrow> 32 word \<Rightarrow> globals \<Rightarrow> globals option" where
  "resize_julia_palette U t1 t2 g = do {
     (re, im) \<leftarrow> julia_constant U t1 t2;
     set_deltas U (g\<lparr>reAl := re, imAg := im,
       xmin := rnd_f U (- rnd_d U 0.5), xmax := rnd_f U (rnd_d U 0.5),
       ymin := rnd_f U (- rnd_d U 0.5), ymax := rnd_f U (rnd_d U 0.5)\<rparr>)
   }"

definition resize_julia :: "fpu \<Rightarrow> 32 word \<Rightarrow> 32 word \<Rightarrow> globals \<Rightarrow> globals option" where
  "resize_julia U t1 t2 g = do {
     (re, im) \<leftarrow> julia_constant U t1 t2;
     set_deltas U (g\<lparr>reAl := re, imAg := im,
       xmin := rnd_f U (- rnd_d U 1.2), xmax := rnd_f U (rnd_d U 1.2),
       ymin := rnd_f U (- rnd_d U 0.8), ymax := rnd_f U (rnd_d U 1)\<rparr>)
   }"

text \<open>
  The Mandelbrot sketches share
  \<^verbatim>\<open>
  const float zoomAdj = .0016;
  const float xadj = 0.;
  const float yadj = .001;
  xmin = reAl - 1./zoOm/zoomAdj+xadj;
  xmax = reAl + 1./zoOm/zoomAdj+xadj;
  ymin = imAg - 1./zoOm/zoomAdj+yadj;
  ymax = imAg + 1./zoOm/zoomAdj+yadj;
  \<close>
  where \<open>1.\<close> makes every operation a \<open>double\<close> one and the assignment rounds to
  \<open>float\<close>. \<open>half_extent\<close> is the subexpression \<open>1./zoOm/zoomAdj\<close>: two divisions.
\<close>

definition half_extent :: "fpu \<Rightarrow> real \<Rightarrow> real \<Rightarrow> real option" where
  "half_extent U z zoomAdj = do {
     q \<leftarrow> fdiv (rnd_d U) (rnd_d U 1) z;
     fdiv (rnd_d U) q zoomAdj
   }"

definition resize_window :: "fpu \<Rightarrow> globals \<Rightarrow> globals option" where
  "resize_window U g = do {
     let zoomAdj = rnd_f U (rnd_d U 0.0016);
     let xadj = rnd_f U (rnd_d U 0);
     let yadj = rnd_f U (rnd_d U 0.001);
     h1 \<leftarrow> half_extent U (zoOm g) zoomAdj;
     let xmin' = rnd_f U (rnd_d U (rnd_d U (reAl g - h1) + xadj));
     h2 \<leftarrow> half_extent U (zoOm g) zoomAdj;
     let xmax' = rnd_f U (rnd_d U (rnd_d U (reAl g + h2) + xadj));
     h3 \<leftarrow> half_extent U (zoOm g) zoomAdj;
     let ymin' = rnd_f U (rnd_d U (rnd_d U (imAg g - h3) + yadj));
     h4 \<leftarrow> half_extent U (zoOm g) zoomAdj;
     let ymax' = rnd_f U (rnd_d U (rnd_d U (imAg g + h4) + yadj));
     set_deltas U (g\<lparr>xmin := xmin', xmax := xmax', ymin := ymin', ymax := ymax'\<rparr>)
   }"

text \<open>
  \<open>Mandelbrot-minimal.ino\<close>: \<open>resize()\<close> is the shared part, on the globals as their
  initialisers leave them (\<open>reAl = -.5\<close>, \<open>imAg = 0.1\<close>, \<open>zoOm = 550.\<close>, the rest zero).
\<close>

definition globals_minimal :: "fpu \<Rightarrow> globals" where
  "globals_minimal U =
     \<lparr>reAl = rnd_f U (- rnd_d U 0.5), imAg = rnd_f U (rnd_d U 0.1), zoOm = rnd_f U (rnd_d U 550),
      xmin = 0, ymin = 0, xmax = 0, ymax = 0, dx = 0, dy = 0\<rparr>"

definition resize_minimal :: "fpu \<Rightarrow> globals \<Rightarrow> globals option" where
  "resize_minimal U g = resize_window U g"

text \<open>
  The animated Mandelbrot sketch first sets
  \<^verbatim>\<open>
  zoOm = 5000. * abs(sin(millis()/2000.))+200.;
  reAl = -0.94299;
  imAg = 0.3162;
  \<close>
  with the comment \<open>// Change zoom to 200 up to 5200\<close> on the first line. \<open>abs\<close> is
  Arduino's macro \<open>((x)>0?(x):-(x))\<close>, so the line expands to
  \<^verbatim>\<open>
  zoOm = 5000. * ((sin(millis()/2000.))>0 ? (sin(millis()/2000.))
                                          : -(sin(millis()/2000.))) + 200.;
  \<close>
  and the argument is evaluated twice: once for the test, on the clock reading \<open>t1\<close>, and
  once in the operand the test selects, on a second reading \<open>t2\<close> of \<open>millis()\<close>.
\<close>

definition zoom :: "fpu \<Rightarrow> 32 word \<Rightarrow> 32 word \<Rightarrow> real option" where
  "zoom U t1 t2 = do {
     q1 \<leftarrow> fdiv (rnd_d U) (rnd_d U (real (unat t1))) (rnd_d U 2000);
     q2 \<leftarrow> fdiv (rnd_d U) (rnd_d U (real (unat t2))) (rnd_d U 2000);
     let s = (if sin_d U q1 > 0 then sin_d U q2 else - sin_d U q2);
     Some (rnd_f U (rnd_d U (rnd_d U (rnd_d U 5000 * s) + rnd_d U 200)))
   }"

definition resize_animated :: "fpu \<Rightarrow> 32 word \<Rightarrow> 32 word \<Rightarrow> globals \<Rightarrow> globals option" where
  "resize_animated U t1 t2 g = do {
     z \<leftarrow> zoom U t1 t2;
     resize_window U
       (g\<lparr>zoOm := z, reAl := rnd_f U (- rnd_d U 0.94299), imAg := rnd_f U (rnd_d U 0.3162)\<rparr>)
   }"

text \<open>
  The window invariant of the data model, on the globals: the bounds are ordered, and
  the steps are the \<open>float\<close> quotients of the \<open>float\<close> differences by the matrix size.
\<close>

definition window_inv :: "fpu \<Rightarrow> globals \<Rightarrow> bool" where
  "window_inv U g \<longleftrightarrow>
     xmin g < xmax g \<and> ymin g < ymax g \<and>
     dx g = rnd_f U (rnd_f U (xmax g - xmin g) / real_of_int (uint matrixWidth)) \<and>
     dy g = rnd_f U (rnd_f U (ymax g - ymin g) / real_of_int (uint matrixHeight))"

text \<open>The midpoint of the window, and the additive constant of the Julia iteration.\<close>

definition window_centre :: "globals \<Rightarrow> real \<times> real" where
  "window_centre g = ((xmin g + xmax g) / 2, (ymin g + ymax g) / 2)"

definition julia_c :: "globals \<Rightarrow> real \<times> real" where
  "julia_c g = (reAl g, imAg g)"

definition globals_zero :: globals where
  "globals_zero =
     \<lparr>reAl = 0, imAg = 0, zoOm = 0, xmin = 0, ymin = 0, xmax = 0, ymax = 0, dx = 0, dy = 0\<rparr>"


section \<open>Properties of the coordinate mapper\<close>

text \<open>The start value of the uninitialised local never reaches the result.\<close>

lemma XY_cfg_init: "XY_cfg s w i0 x y = XY_cfg s w i1 x y"
  by (cases s) (simp_all add: XY_cfg_def Let_def)

lemma uint8_bound: "0 \<le> uint x \<and> uint x \<le> 255" for x :: "8 word"
  using uint_lt2p[of x] by simp

lemma odd_bit: "(y AND 1 \<noteq> 0) = odd (uint y)" for y :: "8 word"
  by (simp add: and_one_eq word_eq_iff_unsigned[where ?'a = int] uint_mod_distrib even_iff_mod_2_eq_zero)

lemma uint_w16: "0 \<le> k \<Longrightarrow> k < 65536 \<Longrightarrow> uint (word_of_int k :: 16 word) = k"
  by (simp add: uint_word_of_int)

lemma uint_w8: "0 \<le> k \<Longrightarrow> k < 256 \<Longrightarrow> uint (word_of_int k :: 8 word) = k"
  by (simp add: uint_word_of_int)

lemma row_bound:
  fixes y w :: "8 word"
  shows "0 \<le> uint y * uint w \<and> uint y * uint w \<le> 65025"
proof -
  have "uint y * uint w \<le> 255 * 255"
    using uint8_bound[of y] uint8_bound[of w] by (intro mult_mono) simp_all
  then show ?thesis by simp
qed

lemma cell_bound:
  fixes x y w :: "8 word"
  shows "0 \<le> uint y * uint w + uint x" and "uint y * uint w + uint x < 65536"
  using row_bound[of y w] uint8_bound[of x] by linarith+

lemma XY_plain: "uint (XY_cfg False w i0 x y) = uint y * uint w + uint x"
proof -
  have "XY_cfg False w i0 x y = word_of_int (uint y * uint w + uint x)"
    unfolding XY_cfg_def Let_def by (simp only: if_True if_False simp_thms)
  then show ?thesis
    by (simp only: uint_w16[OF cell_bound])
qed

lemma XY_even:
  assumes "even (uint y)"
  shows "uint (XY_cfg True w i0 x y) = uint y * uint w + uint x"
proof -
  have "XY_cfg True w i0 x y = word_of_int (uint y * uint w + uint x)"
    unfolding XY_cfg_def Let_def using assms
    by (simp only: odd_bit if_True if_False simp_thms)
  then show ?thesis
    by (simp only: uint_w16[OF cell_bound])
qed

lemma XY_odd:
  assumes "odd (uint y)" and "x < w"
  shows "uint (XY_cfg True w i0 x y) = uint y * uint w + (uint w - 1 - uint x)"
proof -
  have lt: "uint x < uint w" using assms(2) by (simp add: word_less_def)
  have "0 \<le> uint w - 1 - uint x" "uint w - 1 - uint x < 256"
    using lt uint8_bound[of w] uint8_bound[of x] by linarith+
  then have rx: "uint (word_of_int (uint w - 1 - uint x) :: 8 word) = uint w - 1 - uint x"
    by (rule uint_w8)
  have "XY_cfg True w i0 x y =
      word_of_int (uint y * uint w + uint (word_of_int (uint w - 1 - uint x) :: 8 word))"
    unfolding XY_cfg_def Let_def using assms(1)
    by (simp only: odd_bit if_True if_False simp_thms)
  then have "uint (XY_cfg True w i0 x y) =
      uint y * uint w + uint (word_of_int (uint w - 1 - uint x) :: 8 word)"
    by (simp only: uint_w16[OF cell_bound])
  then show ?thesis by (simp only: rx)
qed


lemma XY_value:
  assumes "x < 16"
  shows "uint (XY x y) = 16 * uint y + (if odd (uint y) then 15 - uint x else uint x)"
proof (cases "odd (uint y)")
  case True
  with XY_odd[of y x 16 0] assms show ?thesis
    by (simp add: XY_def matrixSerpentineLayout_def matrixWidth_def)
next
  case False
  with XY_even[of y 16 0 x] show ?thesis
    by (simp add: XY_def matrixSerpentineLayout_def matrixWidth_def)
qed

lemma lt16: "(x < 16) = (uint x < 16)" for x :: "8 word"
  by (simp add: word_less_def)

lemma lt256: "(i < 256) = (uint i < 256)" for i :: "16 word"
  by (simp add: word_less_def)

lemma XY_inj:
  assumes "x < 16" "y < 16" "x' < 16" "y' < 16" "XY x y = XY x' y'"
  shows "x = x' \<and> y = y'"
proof -
  let ?c = "if odd (uint y) then 15 - uint x else uint x"
  let ?c' = "if odd (uint y') then 15 - uint x' else uint x'"
  have e: "16 * uint y + ?c = 16 * uint y' + ?c'"
    using XY_value[OF assms(1), of y] XY_value[OF assms(3), of y'] assms(5) by simp
  have c: "0 \<le> ?c" "?c < 16"
    using assms(1)[unfolded lt16] uint8_bound[of x] by (simp_all del: uint_ge_0, linarith+)
  have c': "0 \<le> ?c'" "?c' < 16"
    using assms(3)[unfolded lt16] uint8_bound[of x'] by (simp_all del: uint_ge_0, linarith+)
  from e c c' have y: "uint y = uint y'" by linarith
  with e have "?c = ?c'" by linarith
  with y have "uint x = uint x'" by (auto split: if_splits)
  with y show ?thesis by (simp add: word_uint_eq_iff)
qed

lemma XY_range:
  assumes "x < 16" "y < 16"
  shows "XY x y < 256"
proof -
  have "uint y < 16" "uint x < 16" using assms by (simp_all add: lt16)
  with uint8_bound[of x] have "uint (XY x y) < 256"
    unfolding XY_value[OF assms(1)] by (simp del: uint_ge_0, linarith)
  then show ?thesis by (simp only: lt256)
qed

lemma XY_surj:
  assumes "i < 256"
  shows "\<exists>x y. x < 16 \<and> y < 16 \<and> XY x y = i"
proof -
  define k where "k = uint i"
  define yv where "yv = k div 16"
  define c where "c = k mod 16"
  define xv where "xv = (if odd yv then 15 - c else c)"
  have k: "0 \<le> k" "k < 256" using assms by (simp_all add: k_def lt256)
  have yv: "0 \<le> yv" "yv < 16" using k by (simp_all add: yv_def)
  have cb: "0 \<le> c" "c < 16" by (simp_all add: c_def)
  have xvb: "0 \<le> xv" "xv < 16" using cb by (simp_all add: xv_def)
  define x :: "8 word" where "x = word_of_int xv"
  define y :: "8 word" where "y = word_of_int yv"
  have ux: "uint x = xv" unfolding x_def using xvb by (intro uint_w8) simp_all
  have uy: "uint y = yv" unfolding y_def using yv by (intro uint_w8) simp_all
  have x16: "x < 16" and y16: "y < 16" using ux uy xvb yv by (simp_all add: lt16)
  have "uint (XY x y) = 16 * yv + c"
    unfolding XY_value[OF x16] ux uy by (simp add: xv_def)
  also have "\<dots> = k" by (simp add: yv_def c_def)
  finally have "XY x y = i" by (simp add: k_def word_uint_eq_iff)
  with x16 y16 show ?thesis by blast
qed

text \<open>
  Claim C3. With the sketches' configuration (width and height 16, serpentine layout)
  the coordinate mapper is a bijection from the grid \<open>[0,16) \<times> [0,16)\<close> onto the indices
  \<open>[0,256)\<close>: it is injective on the grid and its image is exactly \<open>[0,256)\<close>, so every
  index is produced by exactly one cell.
\<close>

theorem XY_bijection:
  "bij_betw (\<lambda>(x, y). XY x y) ({x. x < matrixWidth} \<times> {y. y < matrixHeight}) {i. i < 256}"
  unfolding bij_betw_def matrixWidth_def matrixHeight_def
proof (intro conjI)
  show "inj_on (\<lambda>(x, y). XY x y) ({x. x < 16} \<times> {y. y < 16})"
  proof (rule inj_onI)
    fix p q :: "8 word \<times> 8 word"
    assume p: "p \<in> {x. x < 16} \<times> {y. y < 16}" and q: "q \<in> {x. x < 16} \<times> {y. y < 16}"
      and e: "(case p of (x, y) \<Rightarrow> XY x y) = (case q of (x, y) \<Rightarrow> XY x y)"
    obtain x y where pxy: "p = (x, y)" by (cases p)
    obtain x' y' where qxy: "q = (x', y')" by (cases q)
    have "x < 16" "y < 16" "x' < 16" "y' < 16" "XY x y = XY x' y'"
      using p q e unfolding pxy qxy by simp_all
    then have "x = x' \<and> y = y'" by (rule XY_inj)
    then show "p = q" unfolding pxy qxy by simp
  qed
  show "(\<lambda>(x, y). XY x y) ` ({x. x < 16} \<times> {y. y < 16}) = {i. i < 256}"
  proof (intro set_eqI iffI)
    fix i assume "i \<in> (\<lambda>(x, y). XY x y) ` ({x. x < 16} \<times> {y. y < 16})"
    then obtain p where p: "p \<in> {x. x < 16} \<times> {y. y < 16}"
      and i: "i = (case p of (x, y) \<Rightarrow> XY x y)" by (rule imageE)
    obtain x y where pxy: "p = (x, y)" by (cases p)
    have "x < 16" "y < 16" using p unfolding pxy by simp_all
    then have "XY x y < 256" by (rule XY_range)
    then show "i \<in> {i. i < 256}" unfolding i pxy by simp
  next
    fix i :: "16 word" assume "i \<in> {i. i < 256}"
    then have "i < 256" by simp
    then obtain x y where xy: "x < 16" "y < 16" "XY x y = i" using XY_surj by blast
    have "(x, y) \<in> {x. x < 16} \<times> {y. y < 16}" using xy by simp
    moreover have "i = (case (x, y) of (x, y) \<Rightarrow> XY x y)" using xy by simp
    ultimately show "i \<in> (\<lambda>(x, y). XY x y) ` ({x. x < 16} \<times> {y. y < 16})"
      by (rule rev_image_eqI)
  qed
qed

text \<open>
  Claim C2. For every column \<open>x\<close> below the width (and every row \<open>y\<close>) the mapper returns
  \<open>y * width + x\<close> without serpentine layout; with serpentine layout it returns
  \<open>y * width + (width - 1 - x)\<close> on odd rows and \<open>y * width + x\<close> on even rows: the parity
  of the row, not of the column, decides. With width 4, row 0 maps to \<open>[0,1,2,3]\<close> and
  row 1 to \<open>[7,6,5,4]\<close>.
\<close>

theorem XY_row_parity:
  assumes "x < width"
  shows "uint (XY_cfg False width i0 x y) = uint y * uint width + uint x \<and>
         uint (XY_cfg True width i0 x y) =
           (if odd (uint y) then uint y * uint width + (uint width - 1 - uint x)
            else uint y * uint width + uint x) \<and>
         map (\<lambda>x. XY_cfg True 4 i0 x 0) [0, 1, 2, 3] = [0, 1, 2, 3] \<and>
         map (\<lambda>x. XY_cfg True 4 i0 x 1) [0, 1, 2, 3] = [7, 6, 5, 4]"
proof (intro conjI)
  show "uint (XY_cfg False width i0 x y) = uint y * uint width + uint x"
    by (rule XY_plain)
  show "uint (XY_cfg True width i0 x y) =
           (if odd (uint y) then uint y * uint width + (uint width - 1 - uint x)
            else uint y * uint width + uint x)"
    using XY_odd[OF _ assms, of y i0] XY_even[of y width i0 x] by simp
  show "map (\<lambda>x. XY_cfg True 4 i0 x 0) [0, 1, 2, 3] = [0, 1, 2, 3]"
    by (simp add: XY_cfg_def)
  show "map (\<lambda>x. XY_cfg True 4 i0 x 1) [0, 1, 2, 3] = [7, 6, 5, 4]"
    by (simp add: XY_cfg_def)
qed

theorem XY_row_parity_witness:
  "(2 :: 8 word) < 4 \<and> uint (XY_cfg False 4 0 2 1) = 6 \<and> uint (XY_cfg True 4 0 2 1) = 5"
  using XY_row_parity[of 2 4 0 1] by simp



section \<open>Properties of the escape-time loop\<close>

declare mandel_loop.simps [simp del]

lemma orbit_0: "orbit F c p 0 = p"
  by (simp add: orbit_def)

lemma orbit_Suc: "orbit F c p (Suc k) = update F c (orbit F c p k)"
  by (simp add: orbit_def)

lemma orbit_shift: "orbit F c (update F c p) k = orbit F c p (Suc k)"
  by (simp add: orbit_def funpow_swap1)

lemma mandel_loop_stop:
  "\<not> iter < mx \<Longrightarrow> mandel_loop F mx mc c (a, b, iter) = (a, b, iter)"
  by (simp add: mandel_loop.simps)

lemma mandel_loop_break:
  "iter < mx \<Longrightarrow> escaped F mc (a, b) \<Longrightarrow> mandel_loop F mx mc c (a, b, iter) = (a, b, iter)"
  by (simp add: mandel_loop.simps escaped_def Let_def)

lemma mandel_loop_step:
  "iter < mx \<Longrightarrow> \<not> escaped F mc (a, b) \<Longrightarrow>
   mandel_loop F mx mc c (a, b, iter) =
   mandel_loop F mx mc c (fst (update F c (a, b)), snd (update F c (a, b)), iter + 1)"
  by (simp add: mandel_loop.simps[of F mx mc c a b iter] escaped_def update_def Let_def)

lemma mandel_loop_run:
  "iter \<le> mx \<Longrightarrow>
   \<exists>n. mandel_loop F mx mc c (a, b, iter) =
         (fst (orbit F c (a, b) n), snd (orbit F c (a, b) n), iter + int n) \<and>
       iter + int n \<le> mx \<and>
       (\<forall>k<n. \<not> escaped F mc (orbit F c (a, b) k)) \<and>
       (iter + int n = mx \<or> escaped F mc (orbit F c (a, b) n))"
proof (induction "nat (mx - iter)" arbitrary: a b iter)
  case 0
  then have "\<not> iter < mx" "iter = mx" by simp_all
  then show ?case
    by (intro exI[of _ 0]) (simp add: mandel_loop_stop orbit_0)
next
  case (Suc m)
  then have lt: "iter < mx" by simp
  show ?case
  proof (cases "escaped F mc (a, b)")
    case True
    with lt show ?thesis
      by (intro exI[of _ 0]) (simp add: mandel_loop_break orbit_0)
  next
    case False
    obtain a' b' where upd: "update F c (a, b) = (a', b')" by (cases "update F c (a, b)")
    have "m = nat (mx - (iter + 1))" "iter + 1 \<le> mx" using Suc.hyps(2) lt by simp_all
    from Suc.hyps(1)[OF this, of a' b']
    obtain n where n:
      "mandel_loop F mx mc c (a', b', iter + 1) =
         (fst (orbit F c (a', b') n), snd (orbit F c (a', b') n), iter + 1 + int n)"
      "iter + 1 + int n \<le> mx"
      "\<forall>k<n. \<not> escaped F mc (orbit F c (a', b') k)"
      "iter + 1 + int n = mx \<or> escaped F mc (orbit F c (a', b') n)"
      by blast
    have sh: "orbit F c (a', b') k = orbit F c (a, b) (Suc k)" for k
      using orbit_shift[of F c "(a, b)" k] by (simp add: upd)
    have all: "\<forall>k<Suc n. \<not> escaped F mc (orbit F c (a, b) k)"
    proof (intro allI impI)
      fix k assume "k < Suc n"
      then show "\<not> escaped F mc (orbit F c (a, b) k)"
        using n(3) False by (cases k) (simp_all add: orbit_0 sh)
    qed
    have "mandel_loop F mx mc c (a, b, iter) = mandel_loop F mx mc c (a', b', iter + 1)"
      using mandel_loop_step[OF lt False, of c] by (simp add: upd)
    moreover have "iter + int (Suc n) = iter + 1 + int n" by simp
    ultimately show ?thesis
      using n all unfolding sh by (intro exI[of _ "Suc n"]) (simp only: simp_thms)
  qed
qed

lemma mandel_iter_run:
  assumes "0 \<le> mx"
  shows "\<exists>n. mandel_iter F mx mc c p = int n \<and> int n \<le> mx \<and>
       (\<forall>k<n. \<not> escaped F mc (orbit F c p k)) \<and>
       (int n = mx \<or> escaped F mc (orbit F c p n))"
proof -
  from mandel_loop_run[OF assms, of F mc c "fst p" "snd p"]
  show ?thesis by (auto simp: mandel_iter_def)
qed

text \<open>
  Claim C1. For every cell (every start point \<open>p\<close>, constant \<open>c\<close> and arithmetic) and every
  bound \<open>max_iterations \<ge> 0\<close>, the iteration count lies in \<open>[0, max_iterations]\<close>, and it
  equals \<open>max_iterations\<close> exactly when none of the points tested during the loop, the
  iterates number \<open>0\<close> to \<open>max_iterations - 1\<close>, exceeded the squared escape radius.
\<close>

theorem mandel_iter_range:
  assumes "0 \<le> mx"
  shows "0 \<le> mandel_iter F mx mc c p \<and> mandel_iter F mx mc c p \<le> mx \<and>
         (mandel_iter F mx mc c p = mx \<longleftrightarrow>
            (\<forall>k<nat mx. \<not> escaped F mc (orbit F c p k)))"
proof -
  from mandel_iter_run[OF assms, of F mc c p]
  obtain n where n: "mandel_iter F mx mc c p = int n" "int n \<le> mx"
    "\<forall>k<n. \<not> escaped F mc (orbit F c p k)"
    "int n = mx \<or> escaped F mc (orbit F c p n)" by blast
  have "(int n = mx) = (\<forall>k<nat mx. \<not> escaped F mc (orbit F c p k))"
  proof
    assume "int n = mx"
    then have "nat mx = n" by simp
    with n(3) show "\<forall>k<nat mx. \<not> escaped F mc (orbit F c p k)" by simp
  next
    assume a: "\<forall>k<nat mx. \<not> escaped F mc (orbit F c p k)"
    show "int n = mx"
    proof (rule ccontr)
      assume "int n \<noteq> mx"
      with n(2,4) have "n < nat mx" "escaped F mc (orbit F c p n)" by simp_all
      with a show False by blast
    qed
  qed
  with n(1,2) show ?thesis by simp
qed

text \<open>
  Claim C4. For every window, start point, constant and arithmetic the loop returns (the
  function is total, and its result carries no error value), and what it returns is the
  start point after \<open>n\<close> recurrence updates, where \<open>n\<close> is the returned count and is at
  most \<open>max_iterations\<close> (at most 0 when \<open>max_iterations\<close> is negative).
\<close>

theorem mandel_loop_bounded:
  "\<exists>n. n \<le> nat mx \<and>
       mandel_loop F mx mc c (a, b, 0) =
         (fst ((update F c ^^ n) (a, b)), snd ((update F c ^^ n) (a, b)), int n)"
proof (cases "0 \<le> mx")
  case True
  from mandel_loop_run[OF True, of F mc c a b]
  show ?thesis by (auto simp: orbit_def)
next
  case False
  then show ?thesis
    by (intro exI[of _ 0]) (simp add: mandel_loop_stop)
qed

text \<open>
  Claim C10. The escape test comes before the update: when the start point already has
  \<open>a*a + b*b > maxCalc\<close> and \<open>max_iterations \<ge> 1\<close>, the loop returns the start point
  unchanged with count 0.
\<close>

theorem escape_test_first:
  assumes "fgt F (fadd F (fmul F a a) (fmul F b b)) mc" and "1 \<le> mx"
  shows "mandel_loop F mx mc c (a, b, 0) = (a, b, 0) \<and> mandel_iter F mx mc c (a, b) = 0"
proof -
  have "escaped F mc (a, b)" using assms(1) by (simp add: escaped_def)
  moreover have "0 < mx" using assms(2) by simp
  ultimately have "mandel_loop F mx mc c (a, b, 0) = (a, b, 0)"
    by (rule mandel_loop_break[rotated])
  then show ?thesis by (simp add: mandel_iter_def)
qed



section \<open>Properties of the colour mapper\<close>








section \<open>The evaluator in rounded real arithmetic\<close>

lemma float_ops_simps:
  "fmul (float_ops U) x y = rnd_f U (x * y)"
  "fadd (float_ops U) x y = rnd_f U (x + y)"
  "fsub (float_ops U) x y = rnd_f U (x - y)"
  "fgt (float_ops U) x y = (x > y)"
  "fint (float_ops U) n = rnd_f U (real_of_int n)"
  by (simp_all add: float_ops_def)

lemma ideal_simps: "rnd_f ideal x = x" "rnd_d ideal x = x" "sin_d ideal x = sin x"
  by (simp_all add: ideal_def)

lemma faithful_mono: "faithful r \<Longrightarrow> x \<le> y \<Longrightarrow> r x \<le> r y"
  by (simp add: faithful_def)

lemma faithful_dyadic:
  "faithful r \<Longrightarrow> \<bar>m\<bar> \<le> 2 ^ 24 \<Longrightarrow> e \<le> 24 \<Longrightarrow> r (real_of_int m / 2 ^ e) = real_of_int m / 2 ^ e"
  by (simp add: faithful_def)

lemma faithful_int: "faithful r \<Longrightarrow> \<bar>m\<bar> \<le> 2 ^ 24 \<Longrightarrow> r (real_of_int m) = real_of_int m"
  using faithful_dyadic[of r m 0] by simp

lemma faithful_id: "faithful (\<lambda>x. x)"
  by (simp add: faithful_def)

lemma faithful_ideal: "faithful (rnd_f ideal)" "faithful (rnd_d ideal)"
  by (simp_all add: ideal_def faithful_id)

lemma ieee_like_ideal: "ieee_like ideal"
  by (simp add: ieee_like_def faithful_ideal) (simp add: ideal_def)

lemma faithful_small:
  assumes "faithful r"
  shows "r 0 = 0" "r 2 = 2" "r 3 = 3" "r 4 = 4" "r 6 = 6" "r 9 = 9" "r 12 = 12" "r 144 = 144"
    "r (- 4) = - 4"
  using faithful_int[OF assms, of "- 4"] faithful_int[OF assms, of 0] faithful_int[OF assms, of 2] faithful_int[OF assms, of 3]
    faithful_int[OF assms, of 4] faithful_int[OF assms, of 6] faithful_int[OF assms, of 9]
    faithful_int[OF assms, of 12] faithful_int[OF assms, of 144]
  by simp_all

lemma three_step:
  assumes "faithful (rnd_f U)"
  shows "\<not> escaped (float_ops U) 16 (3, 0)"
    and "update (float_ops U) (3, 0) (3, 0) = (12, 0)"
    and "escaped (float_ops U) 16 (12, 0)"
  using faithful_small[OF assms]
  by (simp_all add: escaped_def update_def float_ops_simps)

lemma three_iter:
  assumes "faithful (rnd_f U)"
  shows "mandel_iter (float_ops U) mx 16 (3, 0) (3, 0) = (if mx \<le> 0 then 0 else 1)"
proof (cases "mx \<le> 0")
  case True
  then show ?thesis by (simp add: mandel_iter_def mandel_loop_stop)
next
  case False
  then have lt: "0 < mx" by simp
  have s1: "mandel_loop (float_ops U) mx 16 (3, 0) (3, 0, 0) =
            mandel_loop (float_ops U) mx 16 (3, 0) (12, 0, 1)"
    using mandel_loop_step[OF lt three_step(1)[OF assms], of "(3, 0)"]
    by (simp add: three_step(2)[OF assms])
  have "mandel_loop (float_ops U) mx 16 (3, 0) (12, 0, 1) = (12, 0, 1)"
  proof (cases "1 < mx")
    case True
    then show ?thesis using three_step(3)[OF assms] by (rule mandel_loop_break)
  next
    case False
    then show ?thesis by (rule mandel_loop_stop)
  qed
  with s1 lt show ?thesis by (simp add: mandel_iter_def)
qed

lemma fixed_step:
  assumes "faithful (rnd_f U)"
  shows "\<not> escaped (float_ops U) 16 (0, 2)"
    and "update (float_ops U) (4, 2) (0, 2) = (0, 2)"
  using faithful_small[OF assms]
  by (simp_all add: escaped_def update_def float_ops_simps)

lemma fixed_orbit:
  assumes "faithful (rnd_f U)"
  shows "orbit (float_ops U) (4, 2) (0, 2) k = (0, 2)"
  by (induction k) (simp_all add: orbit_0 orbit_Suc fixed_step(2)[OF assms])

lemma fixed_iter:
  assumes "faithful (rnd_f U)" "0 \<le> mx"
  shows "mandel_iter (float_ops U) mx 16 (4, 2) (0, 2) = mx"
proof -
  from mandel_iter_run[OF assms(2), of "float_ops U" 16 "(4, 2)" "(0, 2)"]
  obtain n where n: "mandel_iter (float_ops U) mx 16 (4, 2) (0, 2) = int n"
    "int n = mx \<or> escaped (float_ops U) 16 (orbit (float_ops U) (4, 2) (0, 2) n)" by blast
  from n(2) have "int n = mx"
    by (simp add: fixed_orbit[OF assms(1)] fixed_step(1)[OF assms(1)])
  with n(1) show ?thesis by simp
qed

text \<open>
  Claim C6, as amended. With squared escape radius 16 and \<open>c = (3, 0)\<close> as start point and
  constant, in every arithmetic whose \<open>float\<close> rounding is faithful, the count is 1 for
  every \<open>max_iterations \<ge> 1\<close> (and 0 below): it is at most 1, and it is below
  \<open>max_iterations\<close> exactly when \<open>max_iterations \<ge> 2\<close>.
\<close>

theorem three_escapes_after_one:
  assumes "faithful (rnd_f U)"
  shows "mandel_iter (float_ops U) mx 16 (3, 0) (3, 0) = (if mx \<le> 0 then 0 else 1) \<and>
         mandel_iter (float_ops U) mx 16 (3, 0) (3, 0) \<le> 1 \<and>
         (mandel_iter (float_ops U) mx 16 (3, 0) (3, 0) < mx \<longleftrightarrow> 2 \<le> mx)"
  unfolding three_iter[OF assms] by auto

theorem three_escapes_after_one_witness:
  "faithful (rnd_f ideal) \<and> mandel_iter (float_ops ideal) maxIterations 16 (3, 0) (3, 0) = 1"
  using three_escapes_after_one[of ideal maxIterations]
  by (simp add: faithful_ideal maxIterations_def)

text \<open>
  The claim as stated fails: \<open>|c| > 2\<close> does not give a count below \<open>max_iterations\<close>. With
  \<open>max_iterations = 1\<close> the cell \<open>c = (3, 0)\<close> returns 1; and with the Julia constant
  \<open>c = (4, 2)\<close> the start point \<open>(0, 2)\<close> is a fixed point of the update inside the escape
  radius, so its count is \<open>max_iterations = 15\<close>.
\<close>

theorem modulus_above_two_counterexample:
  "(3::real)\<^sup>2 + 0\<^sup>2 > 2\<^sup>2 \<and> \<not> mandel_iter (float_ops ideal) 1 16 (3, 0) (3, 0) < 1 \<and>
   (4::real)\<^sup>2 + 2\<^sup>2 > 2\<^sup>2 \<and>
   \<not> mandel_iter (float_ops ideal) maxIterations 16 (4, 2) (0, 2) < maxIterations"
proof -
  have f: "faithful (rnd_f ideal)" by (rule faithful_ideal)
  show ?thesis by (simp add: three_iter[OF f] fixed_iter[OF f] maxIterations_def)
qed

lemma origin_orbit: "orbit (float_ops ideal) (0, 0) (0, 0) k = (0, 0)"
  by (induction k) (simp_all add: orbit_0 orbit_Suc update_def float_ops_simps ideal_simps)

theorem mandel_iter_range_witness:
  "0 \<le> maxIterations \<and>
   mandel_iter (float_ops ideal) maxIterations 16 (0, 0) (0, 0) = maxIterations"
  using mandel_iter_range[of maxIterations "float_ops ideal" 16 "(0, 0)" "(0, 0)"]
  by (simp add: origin_orbit escaped_def float_ops_simps ideal_simps maxIterations_def)

theorem escape_test_first_witness:
  "fgt (float_ops ideal) (fadd (float_ops ideal) (fmul (float_ops ideal) 5 5)
      (fmul (float_ops ideal) 0 0)) 16 \<and> 1 \<le> maxIterations \<and>
   mandel_iter (float_ops ideal) maxIterations 16 (5, 0) (5, 0) = 0"
  using escape_test_first[of "float_ops ideal" 5 0 16 maxIterations "(5, 0)"]
  by (simp add: float_ops_simps ideal_simps maxIterations_def)



section \<open>Properties of the window animator\<close>

lemma fdiv_Some: "y \<noteq> 0 \<Longrightarrow> fdiv r x y = Some (r (x / y))"
  by (simp add: fdiv_def)

lemma faithful_lower:
  assumes "faithful r" "\<bar>m\<bar> \<le> 2 ^ 24" "e \<le> 24" "real_of_int m / 2 ^ e \<le> x"
  shows "real_of_int m / 2 ^ e \<le> r x"
  using faithful_mono[OF assms(1,4)] faithful_dyadic[OF assms(1,2,3)] by simp

lemma faithful_upper:
  assumes "faithful r" "\<bar>m\<bar> \<le> 2 ^ 24" "e \<le> 24" "x \<le> real_of_int m / 2 ^ e"
  shows "r x \<le> real_of_int m / 2 ^ e"
  using faithful_mono[OF assms(1,4)] faithful_dyadic[OF assms(1,2,3)] by simp

lemma faithful_ge_int:
  assumes "faithful r" "\<bar>m\<bar> \<le> 2 ^ 24" "real_of_int m \<le> x"
  shows "real_of_int m \<le> r x"
  using faithful_lower[OF assms(1,2), of 0 x] assms(3) by simp

lemma faithful_le_int:
  assumes "faithful r" "\<bar>m\<bar> \<le> 2 ^ 24" "x \<le> real_of_int m"
  shows "r x \<le> real_of_int m"
  using faithful_upper[OF assms(1,2), of 0 x] assms(3) by simp

lemma faithful_consts:
  assumes "faithful r"
  shows "r 1 = 1" "r 16 = 16" "r 20 = 20" "r 200 = 200" "r 305 = 305" "r 405 = 405"
    "r 550 = 550" "r 2000 = 2000" "r 5000 = 5000" "r (1/2) = 1/2" "r (- (1/2)) = - (1/2)"
  using faithful_int[OF assms, of 1] faithful_int[OF assms, of 16] faithful_int[OF assms, of 20]
    faithful_int[OF assms, of 200] faithful_int[OF assms, of 305] faithful_int[OF assms, of 405]
    faithful_int[OF assms, of 550] faithful_int[OF assms, of 2000] faithful_int[OF assms, of 5000]
    faithful_dyadic[OF assms, of 1 1] faithful_dyadic[OF assms, of "- 1" 1]
  by simp_all

lemma zoom_value:
  assumes "faithful (rnd_d U)"
  shows "zoom U t1 t2 =
     Some (rnd_f U (rnd_d U (rnd_d U (5000 *
       (if sin_d U (rnd_d U (rnd_d U (real (unat t1)) / 2000)) > 0
        then sin_d U (rnd_d U (rnd_d U (real (unat t2)) / 2000))
        else - sin_d U (rnd_d U (rnd_d U (real (unat t2)) / 2000)))) + 200)))"
  by (simp add: zoom_def fdiv_Some faithful_consts[OF assms] Let_def)

lemma zoom_of_factor:
  assumes fd: "faithful (rnd_d U)" and ff: "faithful (rnd_f U)"
    and s: "real_of_int lo \<le> 5000 * s" "5000 * s \<le> real_of_int hi"
    and b: "\<bar>lo\<bar> \<le> 5000" "\<bar>hi\<bar> \<le> 5000"
  shows "real_of_int (lo + 200) \<le> rnd_f U (rnd_d U (rnd_d U (5000 * s) + 200))"
    and "rnd_f U (rnd_d U (rnd_d U (5000 * s) + 200)) \<le> real_of_int (hi + 200)"
proof -
  have l: "\<bar>lo\<bar> \<le> 2 ^ 24" "\<bar>lo + 200\<bar> \<le> 2 ^ 24"
    and h: "\<bar>hi\<bar> \<le> 2 ^ 24" "\<bar>hi + 200\<bar> \<le> 2 ^ 24" using b by simp_all
  have p: "real_of_int lo \<le> rnd_d U (5000 * s)" "rnd_d U (5000 * s) \<le> real_of_int hi"
    using faithful_ge_int[OF fd l(1) s(1)] faithful_le_int[OF fd h(1) s(2)] by simp_all
  have "real_of_int (lo + 200) \<le> rnd_d U (5000 * s) + 200"
    "rnd_d U (5000 * s) + 200 \<le> real_of_int (hi + 200)" using p by simp_all
  then have "real_of_int (lo + 200) \<le> rnd_d U (rnd_d U (5000 * s) + 200)"
    "rnd_d U (rnd_d U (5000 * s) + 200) \<le> real_of_int (hi + 200)"
    using faithful_ge_int[OF fd l(2)] faithful_le_int[OF fd h(2)] by blast+
  then show "real_of_int (lo + 200) \<le> rnd_f U (rnd_d U (rnd_d U (5000 * s) + 200))"
    and "rnd_f U (rnd_d U (rnd_d U (5000 * s) + 200)) \<le> real_of_int (hi + 200)"
    using faithful_ge_int[OF ff l(2)] faithful_le_int[OF ff h(2)] by blast+
qed

text \<open>
  Whatever the two readings are, the zoom factor is computed and lies in
  \<open>[-4800, 5200]\<close>; when the two readings coincide it lies in \<open>[200, 5200]\<close>, the range
  the comment in the source announces.
\<close>

lemma zoom_range:
  assumes "ieee_like U"
  shows "\<exists>z. zoom U t1 t2 = Some z \<and> - 4800 \<le> z \<and> z \<le> 5200"
proof -
  have fd: "faithful (rnd_d U)" and ff: "faithful (rnd_f U)" and sn: "\<And>x. \<bar>sin_d U x\<bar> \<le> 1"
    using assms by (simp_all add: ieee_like_def)
  define s where "s = (if sin_d U (rnd_d U (rnd_d U (real (unat t1)) / 2000)) > 0
        then sin_d U (rnd_d U (rnd_d U (real (unat t2)) / 2000))
        else - sin_d U (rnd_d U (rnd_d U (real (unat t2)) / 2000)))"
  have "\<bar>s\<bar> \<le> 1" using sn[of "rnd_d U (rnd_d U (real (unat t2)) / 2000)"] by (simp add: s_def)
  then have "real_of_int (- 5000) \<le> 5000 * s" "5000 * s \<le> real_of_int 5000" by simp_all
  from zoom_of_factor[OF fd ff this] zoom_value[OF fd, of t1 t2, folded s_def]
  show ?thesis by simp
qed

lemma zoom_single_reading:
  assumes "ieee_like U"
  shows "\<exists>z. zoom U t t = Some z \<and> 200 \<le> z \<and> z \<le> 5200"
proof -
  have fd: "faithful (rnd_d U)" and ff: "faithful (rnd_f U)" and sn: "\<And>x. \<bar>sin_d U x\<bar> \<le> 1"
    using assms by (simp_all add: ieee_like_def)
  define s where "s = (if sin_d U (rnd_d U (rnd_d U (real (unat t)) / 2000)) > 0
        then sin_d U (rnd_d U (rnd_d U (real (unat t)) / 2000))
        else - sin_d U (rnd_d U (rnd_d U (real (unat t)) / 2000)))"
  have "0 \<le> s" "s \<le> 1"
    using sn[of "rnd_d U (rnd_d U (real (unat t)) / 2000)"] by (auto simp: s_def)
  then have "real_of_int 0 \<le> 5000 * s" "5000 * s \<le> real_of_int 5000" by simp_all
  from zoom_of_factor[OF fd ff this] zoom_value[OF fd, of t t, folded s_def]
  show ?thesis by simp
qed

lemma zoomAdj_range:
  assumes "ieee_like U"
  shows "1 / 1024 \<le> rnd_f U (rnd_d U 0.0016)" "rnd_f U (rnd_d U 0.0016) \<le> 1 / 512"
proof -
  have fd: "faithful (rnd_d U)" and ff: "faithful (rnd_f U)"
    using assms by (simp_all add: ieee_like_def)
  have "1 / 1024 \<le> rnd_d U 0.0016" "rnd_d U 0.0016 \<le> 1 / 512"
    using faithful_lower[OF fd, of 1 10 "0.0016"] faithful_upper[OF fd, of 1 9 "0.0016"]
    by simp_all
  then show "1 / 1024 \<le> rnd_f U (rnd_d U 0.0016)" "rnd_f U (rnd_d U 0.0016) \<le> 1 / 512"
    using faithful_lower[OF ff, of 1 10 "rnd_d U 0.0016"]
      faithful_upper[OF ff, of 1 9 "rnd_d U 0.0016"]
    by simp_all
qed

lemma half_extent_ok:
  assumes "faithful (rnd_d U)" "0 < z" "z \<le> 2 ^ 24" "1 / 1024 \<le> adj" "adj \<le> 1 / 512"
  shows "\<exists>h. half_extent U z adj = Some h \<and> 1 / 2 ^ 15 \<le> h"
proof -
  note fd = assms(1)
  define q where "q = rnd_d U (1 / z)"
  define h where "h = rnd_d U (q / adj)"
  have z0: "z \<noteq> 0" "0 < z" and a0: "adj \<noteq> 0" "0 < adj" using assms by simp_all
  have he: "half_extent U z adj = Some h"
    by (simp add: half_extent_def fdiv_Some faithful_consts[OF fd] z0 a0 h_def q_def)
  have "1 / 2 ^ 24 \<le> 1 / z" using assms(3) z0(2) by (simp add: field_simps)
  then have q: "1 / 2 ^ 24 \<le> q" unfolding q_def
    using faithful_lower[OF fd, of 1 24 "1 / z"] by simp
  have "1 / 2 ^ 15 \<le> (1 / 2 ^ 24) / (1 / 512 :: real)" by simp
  also have "\<dots> \<le> (1 / 2 ^ 24) / adj"
    using assms(5) a0(2) by (intro divide_left_mono) simp_all
  also have "\<dots> \<le> q / adj"
    using q a0(2) by (intro divide_right_mono) simp_all
  finally have "1 / 2 ^ 15 \<le> q / adj" .
  then have "1 / 2 ^ 15 \<le> h" unfolding h_def
    using faithful_lower[OF fd, of 1 15 "q / adj"] by simp
  with he show ?thesis by blast
qed

text \<open>
  The sine near \<open>\<pi>\<close>, from its Taylor polynomial of degree 17 and the remainder bound
  \<open>x^19 / 19!\<close>: \<open>sin 3.1415\<close> is positive and \<open>sin 3.142\<close> is about \<open>-0.000407\<close>.
\<close>

lemma sin_poly19:
  "(\<Sum>m<19. sin_coeff m * x ^ m) =
     x - x ^ 3 / 6 + x ^ 5 / 120 - x ^ 7 / 5040 + x ^ 9 / 362880 - x ^ 11 / 39916800
       + x ^ 13 / 6227020800 - x ^ 15 / 1307674368000 + x ^ 17 / 355687428096000"
  for x :: real
  by (simp add: sin_coeff_def lessThan_nat_numeral fact_numeral)

lemma sin_taylor19:
  fixes x :: real
  assumes "0 \<le> x"
    and "t3 = x ^ 3 / 6" "t5 = x ^ 5 / 120" "t7 = x ^ 7 / 5040" "t9 = x ^ 9 / 362880"
    and "t11 = x ^ 11 / 39916800" "t13 = x ^ 13 / 6227020800"
    and "t15 = x ^ 15 / 1307674368000" "t17 = x ^ 17 / 355687428096000"
    and "t19 = x ^ 19 / 121645100408832000"
  shows "\<bar>sin x - (x - t3 + t5 - t7 + t9 - t11 + t13 - t15 + t17)\<bar> \<le> t19"
proof -
  have "\<bar>sin x - (\<Sum>m<19. sin_coeff m * x ^ m)\<bar> \<le> inverse (fact 19) * \<bar>x\<bar> ^ 19"
    by (rule Maclaurin_sin_bound)
  moreover have "(fact 19 :: real) = 121645100408832000"
    by (simp add: fact_numeral)
  then have "inverse (fact 19) * \<bar>x\<bar> ^ 19 = t19"
    using assms(1) by (simp add: assms(10) field_simps)
  ultimately show ?thesis
    by (simp only: sin_poly19 assms(2-9))
qed

lemma sin_before_pi: "0 < sin (6283 / 2000 :: real)"
proof -
  define x :: real where "x = 6283 / 2000"
  define t3 where "t3 = x ^ 3 / 6"
  define t5 where "t5 = x ^ 5 / 120"
  define t7 where "t7 = x ^ 7 / 5040"
  define t9 where "t9 = x ^ 9 / 362880"
  define t11 where "t11 = x ^ 11 / 39916800"
  define t13 where "t13 = x ^ 13 / 6227020800"
  define t15 where "t15 = x ^ 15 / 1307674368000"
  define t17 where "t17 = x ^ 17 / 355687428096000"
  define t19 where "t19 = x ^ 19 / 121645100408832000"
  have e: "\<bar>sin x - (x - t3 + t5 - t7 + t9 - t11 + t13 - t15 + t17)\<bar> \<le> t19"
    by (rule sin_taylor19) (simp_all add: x_def t3_def t5_def t7_def t9_def t11_def t13_def
        t15_def t17_def t19_def)
  have b: "x = 31415 / 10000"
    "t3 \<le> 5167255566396 / 1000000000000" "2549788007809 / 1000000000000 \<le> t5"
    "t7 \<le> 599140823378 / 1000000000000" "82124084955 / 1000000000000 \<le> t9"
    "t11 \<le> 7368040198 / 1000000000000" "466124055 / 1000000000000 \<le> t13"
    "t15 \<le> 21905661 / 1000000000000" "794806 / 1000000000000 \<le> t17"
    "t19 \<le> 22936 / 1000000000000"
    unfolding x_def t3_def t5_def t7_def t9_def t11_def t13_def t15_def t17_def t19_def
    by (simp_all add: power_divide)
  have "0 < sin x" using e b by linarith
  then show ?thesis by (simp only: x_def)
qed

lemma sin_after_pi:
  "- (4074 / 10000000) < sin (3142 / 1000 :: real)" "sin (3142 / 1000 :: real) < - (4073 / 10000000)"
proof -
  define x :: real where "x = 3142 / 1000"
  define t3 where "t3 = x ^ 3 / 6"
  define t5 where "t5 = x ^ 5 / 120"
  define t7 where "t7 = x ^ 7 / 5040"
  define t9 where "t9 = x ^ 9 / 362880"
  define t11 where "t11 = x ^ 11 / 39916800"
  define t13 where "t13 = x ^ 13 / 6227020800"
  define t15 where "t15 = x ^ 15 / 1307674368000"
  define t17 where "t17 = x ^ 17 / 355687428096000"
  define t19 where "t19 = x ^ 19 / 121645100408832000"
  have e: "\<bar>sin x - (x - t3 + t5 - t7 + t9 - t11 + t13 - t15 + t17)\<bar> \<le> t19"
    by (rule sin_taylor19) (simp_all add: x_def t3_def t5_def t7_def t9_def t11_def t13_def
        t15_def t17_def t19_def)
  have b: "x = 3142 / 1000"
    "5169723214666 / 1000000000000 \<le> t3" "t3 \<le> 5169723214667 / 1000000000000"
    "2551817770489 / 1000000000000 \<le> t5" "t5 \<le> 2551817770490 / 1000000000000"
    "599808655437 / 1000000000000 \<le> t7" "t7 \<le> 599808655438 / 1000000000000"
    "82241797431 / 1000000000000 \<le> t9" "t9 \<le> 82241797432 / 1000000000000"
    "7380950108 / 1000000000000 \<le> t11" "t11 \<le> 7380950109 / 1000000000000"
    "467089422 / 1000000000000 \<le> t13" "t13 \<le> 467089423 / 1000000000000"
    "21958016 / 1000000000000 \<le> t15" "t15 \<le> 21958017 / 1000000000000"
    "796960 / 1000000000000 \<le> t17" "t17 \<le> 796961 / 1000000000000"
    "t19 \<le> 23006 / 1000000000000"
    unfolding x_def t3_def t5_def t7_def t9_def t11_def t13_def t15_def t17_def t19_def
    by (simp_all add: power_divide)
  have "- (4074 / 10000000) < sin x" "sin x < - (4073 / 10000000)" using e b by linarith+
  then show "- (4074 / 10000000) < sin (3142 / 1000 :: real)"
    "sin (3142 / 1000 :: real) < - (4073 / 10000000)" by (simp_all only: x_def)
qed

text \<open>
  Claim C8 fails on the code. The claim, and the comment \<open>// Change zoom to 200 up to 5200\<close>
  in the source, say that the zoom factor is at least 200 at every time. With the clock
  readings 6283 (in the test of the \<open>abs\<close> macro) and 6284 (in the operand it selects),
  one millisecond apart, the test sees \<open>sin 3.1415 > 0\<close> and the operand is
  \<open>sin 3.142 < 0\<close>: in exact arithmetic the code sets \<open>zoOm = 5000 * sin 3.142 + 200\<close>,
  which lies between 197.963 and 197.964.
\<close>

theorem zoom_below_floor:
  "zoom ideal 6283 6284 = Some (5000 * sin (3142 / 1000) + 200) \<and>
   197963 / 1000 < 5000 * sin (3142 / 1000 :: real) + 200 \<and>
   5000 * sin (3142 / 1000 :: real) + 200 < 197964 / 1000"
proof (intro conjI)
  have "zoom ideal 6283 6284 =
      Some (5000 * (if sin (6283 / 2000 :: real) > 0 then sin (6284 / 2000) else - sin (6284 / 2000))
            + 200)"
    by (simp add: zoom_value[OF faithful_ideal(2)] ideal_simps)
  also have "(6284 / 2000 :: real) = 3142 / 1000" by simp
  finally show "zoom ideal 6283 6284 = Some (5000 * sin (3142 / 1000) + 200)"
    using sin_before_pi by (simp only: if_True)
  show "197963 / 1000 < 5000 * sin (3142 / 1000 :: real) + 200"
    using sin_after_pi(1) by linarith
  show "5000 * sin (3142 / 1000 :: real) + 200 < 197964 / 1000"
    using sin_after_pi(2) by linarith
qed

lemma width16: "(unsigned matrixWidth :: real) = 16" "(unsigned matrixHeight :: real) = 16"
  by (simp_all add: matrixWidth_def matrixHeight_def)

lemma set_deltas_ok:
  assumes "faithful (rnd_f U)"
  shows "set_deltas U g =
     Some (g\<lparr>dx := rnd_f U (rnd_f U (xmax g - xmin g) / 16),
             dy := rnd_f U (rnd_f U (ymax g - ymin g) / 16)\<rparr>)"
  by (simp add: set_deltas_def width16 faithful_consts[OF assms] fdiv_Some)

lemma set_deltas_inv:
  assumes "faithful (rnd_f U)" "xmin g < xmax g" "ymin g < ymax g"
  shows "\<exists>g'. set_deltas U g = Some g' \<and> window_inv U g' \<and>
     reAl g' = reAl g \<and> imAg g' = imAg g \<and> zoOm g' = zoOm g \<and>
     xmin g' = xmin g \<and> xmax g' = xmax g \<and> ymin g' = ymin g \<and> ymax g' = ymax g"
  using assms(2,3) by (simp add: set_deltas_ok[OF assms(1)] window_inv_def width16)

lemma axis_ok:
  assumes fd: "faithful rd" and ff: "faithful rf"
    and h: "1 / 2 ^ 15 \<le> h" and c: "\<bar>c\<bar> \<le> 128" and adj: "0 \<le> adj" "adj \<le> 1 / 512"
  shows "rf (rd (rd (c - h) + adj)) < rf (rd (rd (c + h) + adj))"
proof -
  (* two neighbouring multiples of 2^-15 between c - h and c + h *)
  define cc :: int where "cc = \<lceil>32768 * c\<rceil>"
  define fc :: int where "fc = \<lfloor>32768 * c\<rfloor>"
  define k1 :: int where "k1 = cc - 1"
  define k2 :: int where "k2 = fc + 1"
  have lo: "real_of_int (- 4194304) \<le> 32768 * c" and hi: "32768 * c \<le> real_of_int 4194304"
    using c by (simp_all add: abs_le_iff)
  have fl: "- 4194304 \<le> fc"
    unfolding fc_def using lo by (rule le_floor_iff[THEN iffD2])
  have cu: "cc \<le> 4194304"
    unfolding cc_def using hi by (rule ceiling_le_iff[THEN iffD2])
  have fcc: "fc \<le> cc" unfolding fc_def cc_def by (rule floor_le_ceiling)
  have d1: "cc - fc \<le> 1" unfolding fc_def cc_def by (rule ceiling_diff_floor_le_1)
  have k1b: "- 4194305 \<le> k1" "k1 \<le> 4194303"
    using fl cu fcc by (simp_all add: k1_def)
  have k2b: "- 4194303 \<le> k2" "k2 \<le> 4194305"
    using fl cu fcc by (simp_all add: k2_def)
  have k12: "k1 + 1 \<le> k2" using d1 by (simp add: k1_def k2_def)
  have b1: "\<bar>k1\<bar> \<le> 2 ^ 24" and b2: "\<bar>k2\<bar> \<le> 2 ^ 24"
    using k1b k2b by simp_all
  have m1: "c - h \<le> real_of_int k1 / 2 ^ 15"
  proof -
    have "32768 * c \<le> real_of_int cc" unfolding cc_def by (rule le_of_int_ceiling)
    then have "32768 * c - 1 \<le> real_of_int k1" by (simp add: k1_def)
    then show ?thesis using h by simp
  qed
  have m2: "real_of_int k2 / 2 ^ 15 \<le> c + h"
  proof -
    have "real_of_int fc \<le> 32768 * c" unfolding fc_def by (rule of_int_floor_le)
    then have "real_of_int k2 \<le> 32768 * c + 1" by (simp add: k2_def)
    then show ?thesis using h by simp
  qed
  have a1: "rd (c - h) \<le> real_of_int k1 / 2 ^ 15"
    using faithful_upper[OF fd b1 _ m1] by simp
  have a2: "real_of_int k2 / 2 ^ 15 \<le> rd (c + h)"
    using faithful_lower[OF fd b2 _ m2] by simp
  (* two neighbouring multiples of 2^-16 between the two sums with adj *)
  define v where "v = 65536 * (real_of_int k1 / 32768 + adj)"
  define n1 :: int where "n1 = \<lceil>v\<rceil>"
  have v: "2 * real_of_int k1 \<le> v" "v \<le> 2 * real_of_int k1 + 128"
    using adj by (simp_all add: v_def)
  have vb: "- 8388610 \<le> v" "v \<le> 8388734" using v k1b by linarith+
  have "real_of_int (- 8388610) \<le> v" using vb(1) by simp
  then have "- 8388610 \<le> \<lfloor>v\<rfloor>" by (intro le_floor_iff[THEN iffD2])
  moreover have "\<lfloor>v\<rfloor> \<le> \<lceil>v\<rceil>" by (rule floor_le_ceiling)
  moreover have "\<lceil>v\<rceil> \<le> 8388734"
    using vb(2) by (intro ceiling_le_iff[THEN iffD2]) simp
  ultimately have n1b: "- 8388610 \<le> n1" "n1 \<le> 8388734"
    unfolding n1_def by linarith+
  have bn: "\<bar>n1\<bar> \<le> 2 ^ 24" "\<bar>n1 + 1\<bar> \<le> 2 ^ 24" using n1b by simp_all
  have "v \<le> real_of_int n1" unfolding n1_def by (rule le_of_int_ceiling)
  then have u1: "real_of_int k1 / 2 ^ 15 + adj \<le> real_of_int n1 / 2 ^ 16"
    by (simp add: v_def field_simps)
  have "real_of_int n1 < v + 1" unfolding n1_def using ceiling_correct[of v] by linarith
  moreover have "real_of_int (k1 + 1) \<le> real_of_int k2"
    using k12 by (rule of_int_le_iff[THEN iffD2])
  then have "real_of_int k1 + 1 \<le> real_of_int k2" by simp
  ultimately have u2: "real_of_int (n1 + 1) / 2 ^ 16 \<le> real_of_int k2 / 2 ^ 15 + adj"
    by (simp add: v_def field_simps)
  have "rd (c - h) + adj \<le> real_of_int n1 / 2 ^ 16" using a1 u1 by linarith
  then have "rd (rd (c - h) + adj) \<le> real_of_int n1 / 2 ^ 16"
    using faithful_upper[OF fd bn(1), of 16] by simp
  then have left: "rf (rd (rd (c - h) + adj)) \<le> real_of_int n1 / 2 ^ 16"
    using faithful_upper[OF ff bn(1), of 16] by simp
  have "real_of_int (n1 + 1) / 2 ^ 16 \<le> rd (c + h) + adj" using a2 u2 by linarith
  then have "real_of_int (n1 + 1) / 2 ^ 16 \<le> rd (rd (c + h) + adj)"
    using faithful_lower[OF fd bn(2), of 16] by simp
  then have right: "real_of_int (n1 + 1) / 2 ^ 16 \<le> rf (rd (rd (c + h) + adj))"
    using faithful_lower[OF ff bn(2), of 16] by simp
  have "real_of_int n1 / 2 ^ 16 < real_of_int (n1 + 1) / 2 ^ 16" by simp
  with left right show ?thesis by linarith
qed

lemma unit_range:
  assumes "faithful (rnd_d U)" "faithful (rnd_f U)" "0 \<le> x" "x \<le> 1"
  shows "0 \<le> rnd_f U (rnd_d U x)" "rnd_f U (rnd_d U x) \<le> 1"
    "- 1 \<le> rnd_f U (- rnd_d U x)" "rnd_f U (- rnd_d U x) \<le> 0"
proof -
  have d: "0 \<le> rnd_d U x" "rnd_d U x \<le> 1"
    using faithful_ge_int[OF assms(1), of 0 x] faithful_le_int[OF assms(1), of 1 x] assms(3,4)
    by simp_all
  show "0 \<le> rnd_f U (rnd_d U x)" "rnd_f U (rnd_d U x) \<le> 1"
    using faithful_ge_int[OF assms(2), of 0 "rnd_d U x"]
      faithful_le_int[OF assms(2), of 1 "rnd_d U x"] d by simp_all
  show "- 1 \<le> rnd_f U (- rnd_d U x)" "rnd_f U (- rnd_d U x) \<le> 0"
    using faithful_ge_int[OF assms(2), of "- 1" "- rnd_d U x"]
      faithful_le_int[OF assms(2), of 0 "- rnd_d U x"] d by simp_all
qed

lemma resize_window_eq:
  assumes "half_extent U (zoOm g) (rnd_f U (rnd_d U 0.0016)) = Some h"
  shows "resize_window U g =
     set_deltas U (g\<lparr>
       xmin := rnd_f U (rnd_d U (rnd_d U (reAl g - h) + rnd_f U (rnd_d U 0))),
       xmax := rnd_f U (rnd_d U (rnd_d U (reAl g + h) + rnd_f U (rnd_d U 0))),
       ymin := rnd_f U (rnd_d U (rnd_d U (imAg g - h) + rnd_f U (rnd_d U 0.001))),
       ymax := rnd_f U (rnd_d U (rnd_d U (imAg g + h) + rnd_f U (rnd_d U 0.001)))\<rparr>)"
  using assms by (simp add: resize_window_def Let_def)

lemma resize_window_ok:
  assumes U: "ieee_like U" and z: "0 < zoOm g" "zoOm g \<le> 2 ^ 24"
    and re: "\<bar>reAl g\<bar> \<le> 128" and im: "\<bar>imAg g\<bar> \<le> 128"
  shows "\<exists>g'. resize_window U g = Some g' \<and> window_inv U g' \<and>
           reAl g' = reAl g \<and> imAg g' = imAg g \<and> zoOm g' = zoOm g"
proof -
  have fd: "faithful (rnd_d U)" and ff: "faithful (rnd_f U)"
    using U by (simp_all add: ieee_like_def)
  from half_extent_ok[OF fd z zoomAdj_range[OF U]]
  obtain h where h: "half_extent U (zoOm g) (rnd_f U (rnd_d U 0.0016)) = Some h" "1 / 2 ^ 15 \<le> h"
    by blast
  define xadj where "xadj = rnd_f U (rnd_d U 0)"
  define yadj where "yadj = rnd_f U (rnd_d U 0.001)"
  have xa: "0 \<le> xadj" "xadj \<le> 1 / 512"
    using faithful_int[OF fd, of 0] faithful_int[OF ff, of 0] by (simp_all add: xadj_def)
  have "0 \<le> rnd_d U 0.001" "rnd_d U 0.001 \<le> 1 / 512"
    using faithful_ge_int[OF fd, of 0 "0.001"] faithful_upper[OF fd, of 1 9 "0.001"] by simp_all
  then have ya: "0 \<le> yadj" "yadj \<le> 1 / 512" unfolding yadj_def
    using faithful_ge_int[OF ff, of 0 "rnd_d U 0.001"]
      faithful_upper[OF ff, of 1 9 "rnd_d U 0.001"] by simp_all
  define g1 where "g1 = g\<lparr>
       xmin := rnd_f U (rnd_d U (rnd_d U (reAl g - h) + xadj)),
       xmax := rnd_f U (rnd_d U (rnd_d U (reAl g + h) + xadj)),
       ymin := rnd_f U (rnd_d U (rnd_d U (imAg g - h) + yadj)),
       ymax := rnd_f U (rnd_d U (rnd_d U (imAg g + h) + yadj))\<rparr>"
  have eq: "resize_window U g = set_deltas U g1"
    unfolding g1_def xadj_def yadj_def by (rule resize_window_eq[OF h(1)])
  have x: "xmin g1 < xmax g1"
    using axis_ok[OF fd ff h(2) re xa] by (simp add: g1_def)
  have y: "ymin g1 < ymax g1"
    using axis_ok[OF fd ff h(2) im ya] by (simp add: g1_def)
  from set_deltas_inv[OF ff x y] obtain g' where
    "set_deltas U g1 = Some g'" "window_inv U g'"
    "reAl g' = reAl g1" "imAg g' = imAg g1" "zoOm g' = zoOm g1" by blast
  then show ?thesis unfolding eq by (intro exI[of _ g']) (simp add: g1_def)
qed

lemma resize_minimal_ok:
  assumes U: "ieee_like U"
    and g: "reAl g = reAl (globals_minimal U)" "imAg g = imAg (globals_minimal U)"
      "zoOm g = zoOm (globals_minimal U)"
  shows "\<exists>g'. resize_minimal U g = Some g' \<and> window_inv U g' \<and>
           reAl g' = reAl g \<and> imAg g' = imAg g \<and> zoOm g' = zoOm g"
proof -
  have fd: "faithful (rnd_d U)" and ff: "faithful (rnd_f U)"
    using U by (simp_all add: ieee_like_def)
  have z: "zoOm g = 550"
    using faithful_consts(7)[OF fd] faithful_consts(7)[OF ff] by (simp add: g globals_minimal_def)
  have re: "- 1 \<le> reAl g" "reAl g \<le> 0"
    using unit_range(3,4)[OF fd ff, of "0.5"] by (simp_all add: g globals_minimal_def)
  have im: "0 \<le> imAg g" "imAg g \<le> 1"
    using unit_range(1,2)[OF fd ff, of "0.1"] by (simp_all add: g globals_minimal_def)
  have "\<bar>reAl g\<bar> \<le> 128" "\<bar>imAg g\<bar> \<le> 128" using re im by simp_all
  from resize_window_ok[OF U _ _ this] z show ?thesis
    by (simp add: resize_minimal_def)
qed

lemma resize_animated_ok:
  assumes U: "ieee_like U" and z: "zoom U t1 t2 = Some z" "0 < z"
  shows "\<exists>g'. resize_animated U t1 t2 g = Some g' \<and> window_inv U g'"
proof -
  have fd: "faithful (rnd_d U)" and ff: "faithful (rnd_f U)"
    using U by (simp_all add: ieee_like_def)
  from zoom_range[OF U, of t1 t2] z(1) have zu: "z \<le> 5200" by simp
  define g0 where
    "g0 = g\<lparr>zoOm := z, reAl := rnd_f U (- rnd_d U 0.94299), imAg := rnd_f U (rnd_d U 0.3162)\<rparr>"
  have eq: "resize_animated U t1 t2 g = resize_window U g0"
    by (simp add: resize_animated_def z(1) g0_def)
  have "\<bar>reAl g0\<bar> \<le> 128"
    using unit_range(3,4)[OF fd ff, of "0.94299"] by (simp add: g0_def)
  moreover have "\<bar>imAg g0\<bar> \<le> 128"
    using unit_range(1,2)[OF fd ff, of "0.3162"] by (simp add: g0_def)
  moreover have "0 < zoOm g0" "zoOm g0 \<le> 2 ^ 24" using z(2) zu by (simp_all add: g0_def)
  ultimately obtain g' where "resize_window U g0 = Some g'" "window_inv U g'"
    using resize_window_ok[OF U, of g0] by blast
  then show ?thesis unfolding eq by blast
qed

lemma resize_window_ideal:
  assumes "0 < zoOm g"
  shows "\<exists>g'. resize_window ideal g = Some g' \<and> window_inv ideal g'"
proof -
  define h where "h = 1 / zoOm g / 0.0016"
  have hp: "0 < h" using assms by (simp add: h_def)
  have he: "half_extent ideal (zoOm g) (rnd_f ideal (rnd_d ideal 0.0016)) = Some h"
    using assms by (simp add: half_extent_def fdiv_def ideal_simps h_def)
  show ?thesis
    unfolding resize_window_eq[OF he] using hp
    by (simp add: set_deltas_ok[OF faithful_ideal(1)] window_inv_def width16 ideal_simps)
qed


lemma julia_constant_ok:
  assumes "faithful (rnd_d U)"
  shows "julia_constant U t1 t2 =
     Some (rnd_f U (rnd_d U (rnd_f U (- rnd_d U 0.94299) +
              rnd_d U (sin_d U (rnd_d U (rnd_f U (real (unat t1)) / 305)) / 20))),
           rnd_f U (rnd_d U (rnd_f U (rnd_d U 0.3162) +
              rnd_d U (sin_d U (rnd_d U (rnd_f U (real (unat t2)) / 405)) / 20))))"
  by (simp add: julia_constant_def fdiv_Some faithful_consts[OF assms] Let_def)

lemma julia_constant_ideal:
  "julia_constant ideal t1 t2 =
     Some (- 0.94299 + sin (real (unat t1) / 305) / 20,
           0.3162 + sin (real (unat t2) / 405) / 20)"
  by (simp add: julia_constant_ok[OF faithful_ideal(2)] ideal_simps)

lemma resize_julia_palette_ok:
  assumes U: "ieee_like U"
  shows "\<exists>g'. resize_julia_palette U t1 t2 g = Some g' \<and> window_inv U g' \<and>
           xmin g' = - (1 / 2) \<and> xmax g' = 1 / 2 \<and> ymin g' = - (1 / 2) \<and> ymax g' = 1 / 2 \<and>
           Some (julia_c g') = julia_constant U t1 t2"
proof -
  have fd: "faithful (rnd_d U)" and ff: "faithful (rnd_f U)"
    using U by (simp_all add: ieee_like_def)
  obtain re im where c: "julia_constant U t1 t2 = Some (re, im)"
    using julia_constant_ok[OF fd, of t1 t2] by blast
  define g1 where "g1 = g\<lparr>reAl := re, imAg := im,
       xmin := - (1 / 2), xmax := 1 / 2, ymin := - (1 / 2), ymax := 1 / 2\<rparr>"
  have eq: "resize_julia_palette U t1 t2 g = set_deltas U g1"
    by (simp add: resize_julia_palette_def c g1_def faithful_consts[OF fd] faithful_consts[OF ff])
  have "xmin g1 < xmax g1" "ymin g1 < ymax g1" by (simp_all add: g1_def)
  from set_deltas_inv[OF ff this] obtain g' where
    "set_deltas U g1 = Some g'" "window_inv U g'" "reAl g' = reAl g1" "imAg g' = imAg g1"
    "xmin g' = xmin g1" "xmax g' = xmax g1" "ymin g' = ymin g1" "ymax g' = ymax g1" by blast
  then show ?thesis unfolding eq
    by (intro exI[of _ g']) (simp add: g1_def julia_c_def c)
qed

lemma resize_julia_ok:
  assumes U: "ieee_like U"
  shows "\<exists>g'. resize_julia U t1 t2 g = Some g' \<and> window_inv U g' \<and>
           xmin g' = rnd_f U (- rnd_d U 1.2) \<and> xmax g' = rnd_f U (rnd_d U 1.2) \<and>
           ymin g' = rnd_f U (- rnd_d U 0.8) \<and> ymax g' = 1 \<and>
           Some (julia_c g') = julia_constant U t1 t2"
proof -
  have fd: "faithful (rnd_d U)" and ff: "faithful (rnd_f U)"
    using U by (simp_all add: ieee_like_def)
  obtain re im where c: "julia_constant U t1 t2 = Some (re, im)"
    using julia_constant_ok[OF fd, of t1 t2] by blast
  define g1 where "g1 = g\<lparr>reAl := re, imAg := im,
       xmin := rnd_f U (- rnd_d U 1.2), xmax := rnd_f U (rnd_d U 1.2),
       ymin := rnd_f U (- rnd_d U 0.8), ymax := 1\<rparr>"
  have eq: "resize_julia U t1 t2 g = set_deltas U g1"
    by (simp add: resize_julia_def c g1_def faithful_consts[OF fd] faithful_consts[OF ff])
  have d1: "1 \<le> rnd_d U 1.2" using faithful_ge_int[OF fd, of 1 "1.2"] by simp
  have d2: "1 / 2 \<le> rnd_d U 0.8" using faithful_lower[OF fd, of 1 1 "0.8"] by simp
  have "rnd_f U (- rnd_d U 1.2) \<le> - 1"
    using faithful_le_int[OF ff, of "- 1" "- rnd_d U 1.2"] d1 by simp
  moreover have "1 \<le> rnd_f U (rnd_d U 1.2)"
    using faithful_ge_int[OF ff, of 1 "rnd_d U 1.2"] d1 by simp
  moreover have "rnd_f U (- rnd_d U 0.8) \<le> - (1 / 2)"
    using faithful_upper[OF ff, of "- 1" 1 "- rnd_d U 0.8"] d2 by simp
  ultimately have "xmin g1 < xmax g1" "ymin g1 < ymax g1" by (simp_all add: g1_def)
  from set_deltas_inv[OF ff this] obtain g' where
    "set_deltas U g1 = Some g'" "window_inv U g'" "reAl g' = reAl g1" "imAg g' = imAg g1"
    "xmin g' = xmin g1" "xmax g' = xmax g1" "ymin g' = ymin g1" "ymax g' = ymax g1" by blast
  then show ?thesis unfolding eq
    by (intro exI[of _ g']) (simp add: g1_def julia_c_def c)
qed

lemma faithful_grid: "faithful (\<lambda>x. real_of_int \<lfloor>x * 2 ^ 25 + 1 / 2\<rfloor> / 2 ^ 25)"
  unfolding faithful_def
proof (intro conjI allI impI)
  fix x y :: real
  assume "x \<le> y"
  then have "\<lfloor>x * 2 ^ 25 + 1 / 2\<rfloor> \<le> \<lfloor>y * 2 ^ 25 + 1 / 2\<rfloor>" by (intro floor_mono) simp
  then show "real_of_int \<lfloor>x * 2 ^ 25 + 1 / 2\<rfloor> / 2 ^ 25 \<le> real_of_int \<lfloor>y * 2 ^ 25 + 1 / 2\<rfloor> / 2 ^ 25"
    by (simp add: divide_right_mono)
next
  fix m :: int and e :: nat
  assume "e \<le> 24"
  then have p: "(2::real) ^ 25 = 2 ^ e * 2 ^ (25 - e)"
    by (simp add: power_add [symmetric])
  have "real_of_int m / 2 ^ e * 2 ^ 25 = real_of_int (m * 2 ^ (25 - e))"
    unfolding p by simp
  then have "\<lfloor>real_of_int m / 2 ^ e * 2 ^ 25 + 1 / 2\<rfloor> = m * 2 ^ (25 - e)"
    by (simp only: floor_eq_iff) simp
  then show "real_of_int \<lfloor>real_of_int m / 2 ^ e * 2 ^ 25 + 1 / 2\<rfloor> / 2 ^ 25 =
      real_of_int m / 2 ^ e"
    unfolding p by simp
qed

lemma ieee_like_grid: "ieee_like float_grid"
  using faithful_grid by (simp add: ieee_like_def float_grid_def faithful_id)

text \<open>
  Claim C7, as amended. In every arithmetic with faithful roundings and a sine in
  \<open>[-1, 1]\<close>, the window satisfies \<open>xmax > xmin\<close>, \<open>ymax > ymin\<close>,
  \<open>dx = (xmax - xmin) / width\<close> and \<open>dy = (ymax - ymin) / height\<close> (the quotients as the
  \<open>float\<close> operations compute them)
  \<^item> after the window computation that the two zooming sketches share, when the zoom
    factor is strictly positive and at most \<open>2^24\<close> and the centre coordinates are at
    most 128 in magnitude;
  \<^item> hence after every \<open>resize()\<close> of the minimal sketch, whose zoom factor is the initial
    550, and after every \<open>resize()\<close> of the animated sketch that computes a strictly
    positive zoom factor;
  \<^item> after every \<open>resize()\<close> of the two Julia sketches.
  In exact arithmetic the shared window computation keeps the invariant for every
  strictly positive zoom factor.
\<close>

theorem window_invariant:
  assumes "ieee_like U"
  shows "(0 < zoOm g \<and> zoOm g \<le> 2 ^ 24 \<and> \<bar>reAl g\<bar> \<le> 128 \<and> \<bar>imAg g\<bar> \<le> 128 \<longrightarrow>
            (\<exists>g'. resize_window U g = Some g' \<and> window_inv U g' \<and>
                  reAl g' = reAl g \<and> imAg g' = imAg g \<and> zoOm g' = zoOm g)) \<and>
         (reAl g = reAl (globals_minimal U) \<and> imAg g = imAg (globals_minimal U) \<and>
          zoOm g = zoOm (globals_minimal U) \<longrightarrow>
            (\<exists>g'. resize_minimal U g = Some g' \<and> window_inv U g' \<and>
                  reAl g' = reAl g \<and> imAg g' = imAg g \<and> zoOm g' = zoOm g)) \<and>
         (zoom U t1 t2 = Some z \<and> 0 < z \<longrightarrow>
            (\<exists>g'. resize_animated U t1 t2 g = Some g' \<and> window_inv U g')) \<and>
         (\<exists>g'. resize_julia_palette U t1 t2 g = Some g' \<and> window_inv U g') \<and>
         (\<exists>g'. resize_julia U t1 t2 g = Some g' \<and> window_inv U g') \<and>
         (0 < zoOm g \<longrightarrow> (\<exists>g'. resize_window ideal g = Some g' \<and> window_inv ideal g'))"
proof (intro conjI impI)
  assume "0 < zoOm g \<and> zoOm g \<le> 2 ^ 24 \<and> \<bar>reAl g\<bar> \<le> 128 \<and> \<bar>imAg g\<bar> \<le> 128"
  then show "\<exists>g'. resize_window U g = Some g' \<and> window_inv U g' \<and>
                  reAl g' = reAl g \<and> imAg g' = imAg g \<and> zoOm g' = zoOm g"
    using resize_window_ok[OF assms, of g] by blast
next
  assume "reAl g = reAl (globals_minimal U) \<and> imAg g = imAg (globals_minimal U) \<and>
          zoOm g = zoOm (globals_minimal U)"
  then show "\<exists>g'. resize_minimal U g = Some g' \<and> window_inv U g' \<and>
                  reAl g' = reAl g \<and> imAg g' = imAg g \<and> zoOm g' = zoOm g"
    using resize_minimal_ok[OF assms, of g] by blast
next
  assume "zoom U t1 t2 = Some z \<and> 0 < z"
  then show "\<exists>g'. resize_animated U t1 t2 g = Some g' \<and> window_inv U g'"
    using resize_animated_ok[OF assms, of t1 t2 z g] by blast
next
  show "\<exists>g'. resize_julia_palette U t1 t2 g = Some g' \<and> window_inv U g'"
    using resize_julia_palette_ok[OF assms, of t1 t2 g] by blast
  show "\<exists>g'. resize_julia U t1 t2 g = Some g' \<and> window_inv U g'"
    using resize_julia_ok[OF assms, of t1 t2 g] by blast
next
  assume "0 < zoOm g"
  then show "\<exists>g'. resize_window ideal g = Some g' \<and> window_inv ideal g'"
    by (rule resize_window_ideal)
qed

theorem window_invariant_witness:
  "ieee_like ideal \<and> 0 < zoOm (globals_minimal ideal) \<and> zoOm (globals_minimal ideal) \<le> 2 ^ 24 \<and>
   \<bar>reAl (globals_minimal ideal)\<bar> \<le> 128 \<and> \<bar>imAg (globals_minimal ideal)\<bar> \<le> 128 \<and>
   zoom ideal 0 0 = Some 200 \<and>
   (\<exists>g'. resize_minimal ideal (globals_minimal ideal) = Some g' \<and> window_inv ideal g' \<and>
      xmin g' = - (18 / 11) \<and> xmax g' = 7 / 11) \<and>
   (\<exists>g'. resize_animated ideal 0 0 (globals_minimal ideal) = Some g' \<and> window_inv ideal g')"
proof -
  have z: "0 < zoOm (globals_minimal ideal)" "zoOm (globals_minimal ideal) \<le> 2 ^ 24"
    "\<bar>reAl (globals_minimal ideal)\<bar> \<le> 128" "\<bar>imAg (globals_minimal ideal)\<bar> \<le> 128"
    by (simp_all add: globals_minimal_def ideal_simps)
  have zm: "zoom ideal 0 0 = Some 200"
    by (simp add: zoom_value[OF faithful_ideal(2)] ideal_simps)
  note w = window_invariant[OF ieee_like_ideal, of "globals_minimal ideal" 0 0 200]
  from w obtain g' where g': "resize_minimal ideal (globals_minimal ideal) = Some g'"
    "window_inv ideal g'" by blast
  from w zm obtain g'' where g'': "resize_animated ideal 0 0 (globals_minimal ideal) = Some g''"
    "window_inv ideal g''" by auto
  have "resize_minimal ideal (globals_minimal ideal) =
      set_deltas ideal (globals_minimal ideal\<lparr>xmin := - (18 / 11), xmax := 7 / 11,
        ymin := 0.1 - 25 / 22 + 0.001, ymax := 0.1 + 25 / 22 + 0.001\<rparr>)"
    by (simp add: resize_minimal_def resize_window_def half_extent_def fdiv_def ideal_simps
        globals_minimal_def)
  with g'(1) have "xmin g' = - (18 / 11) \<and> xmax g' = 7 / 11"
    by (auto simp: set_deltas_ok[OF faithful_ideal(1)])
  with g' g'' z zm ieee_like_ideal show ?thesis by blast
qed

text \<open>
  The claim as stated fails: a strictly positive zoom factor is not enough. With the
  globals of the minimal sketch and \<open>zoOm = 2^40\<close>, in the arithmetic \<open>float_grid\<close> (which
  satisfies every assumption made of an arithmetic here), the half-extent is about
  \<open>5.7e-10\<close>, both \<open>reAl - h\<close> and \<open>reAl + h\<close> round to \<open>-0.5\<close>, and \<open>xmax = xmin\<close>. IEEE single
  precision is at least as coarse around \<open>-0.5\<close>, so the sketch computes the same bounds.
\<close>

theorem window_collapses_counterexample:
  "ieee_like float_grid \<and>
   0 < zoOm ((globals_minimal float_grid)\<lparr>zoOm := 2 ^ 40\<rparr>) \<and>
   map_option xmin (resize_window float_grid ((globals_minimal float_grid)\<lparr>zoOm := 2 ^ 40\<rparr>)) =
     Some (- (1 / 2)) \<and>
   map_option xmax (resize_window float_grid ((globals_minimal float_grid)\<lparr>zoOm := 2 ^ 40\<rparr>)) =
     Some (- (1 / 2)) \<and>
   map_option (window_inv float_grid)
     (resize_window float_grid ((globals_minimal float_grid)\<lparr>zoOm := 2 ^ 40\<rparr>)) = Some False"
proof -
  have r: "rnd_f float_grid x = real_of_int \<lfloor>x * 2 ^ 25 + 1 / 2\<rfloor> / 2 ^ 25"
    "rnd_d float_grid x = x" for x
    by (simp_all add: float_grid_def)
  have gm: "globals_minimal float_grid =
      \<lparr>reAl = - (1 / 2), imAg = 3355443 / 33554432, zoOm = 550,
       xmin = 0, ymin = 0, xmax = 0, ymax = 0, dx = 0, dy = 0\<rparr>"
    by (simp add: globals_minimal_def r)
  have "resize_window float_grid ((globals_minimal float_grid)\<lparr>zoOm := 2 ^ 40\<rparr>) =
      Some \<lparr>reAl = - (1 / 2), imAg = 3355443 / 33554432, zoOm = 2 ^ 40,
        xmin = - (1 / 2), ymin = 3388997 / 33554432,
        xmax = - (1 / 2), ymax = 3388997 / 33554432, dx = 0, dy = 0\<rparr>"
    by (simp add: gm resize_window_def half_extent_def set_deltas_def fdiv_def r
        matrixWidth_def matrixHeight_def)
  then show ?thesis
    using ieee_like_grid by (simp add: gm window_inv_def)
qed

text \<open>
  Claim C5, as amended. In the Julia sketches the window does not depend on the time: it
  is the constant rectangle \<open>x, y \<in> [-0.5, 0.5]\<close> (centre \<open>(0, 0)\<close>, half-extent \<open>0.5\<close>) in
  \<open>Julia-palette.ino\<close>, and the rounded literals \<open>x \<in> [-1.2, 1.2]\<close>, \<open>y \<in> [-0.8, 1]\<close> in the
  other Julia sketch. The sinusoidally perturbed point, in exact arithmetic
  \<open>(-0.94299 + sin(t/305)/20, 0.3162 + sin(t/405)/20)\<close>, is stored in \<open>reAl\<close> and \<open>imAg\<close>:
  it is the additive constant of the iteration, not the centre of the window.
\<close>

theorem julia_window_fixed:
  assumes "ieee_like U"
  shows "\<exists>g1 g2. resize_julia_palette U t1 t2 g = Some g1 \<and> resize_julia U t1 t2 g = Some g2 \<and>
     xmin g1 = - (1 / 2) \<and> xmax g1 = 1 / 2 \<and> ymin g1 = - (1 / 2) \<and> ymax g1 = 1 / 2 \<and>
     window_centre g1 = (0, 0) \<and>
     xmin g2 = rnd_f U (- rnd_d U 1.2) \<and> xmax g2 = rnd_f U (rnd_d U 1.2) \<and>
     ymin g2 = rnd_f U (- rnd_d U 0.8) \<and> ymax g2 = 1 \<and>
     Some (julia_c g1) = julia_constant U t1 t2 \<and>
     Some (julia_c g2) = julia_constant U t1 t2 \<and>
     julia_constant ideal t1 t2 =
       Some (- 0.94299 + sin (real (unat t1) / 305) / 20,
             0.3162 + sin (real (unat t2) / 405) / 20)"
proof -
  from resize_julia_palette_ok[OF assms, of t1 t2 g] obtain g1 where
    g1: "resize_julia_palette U t1 t2 g = Some g1"
    "xmin g1 = - (1 / 2)" "xmax g1 = 1 / 2" "ymin g1 = - (1 / 2)" "ymax g1 = 1 / 2"
    "Some (julia_c g1) = julia_constant U t1 t2" by blast
  from resize_julia_ok[OF assms, of t1 t2 g] obtain g2 where
    g2: "resize_julia U t1 t2 g = Some g2"
    "xmin g2 = rnd_f U (- rnd_d U 1.2)" "xmax g2 = rnd_f U (rnd_d U 1.2)"
    "ymin g2 = rnd_f U (- rnd_d U 0.8)" "ymax g2 = 1"
    "Some (julia_c g2) = julia_constant U t1 t2" by blast
  have "window_centre g1 = (0, 0)" by (simp add: window_centre_def g1)
  with g1 g2 julia_constant_ideal[of t1 t2] show ?thesis by blast
qed

theorem julia_window_fixed_witness:
  "ieee_like ideal \<and>
   map_option window_centre (resize_julia ideal 1000 1000 globals_zero) = Some (0, 1 / 10)"
proof -
  from julia_window_fixed[OF ieee_like_ideal, of 1000 1000 globals_zero] obtain g2 where
    "resize_julia ideal 1000 1000 globals_zero = Some g2"
    "xmin g2 = rnd_f ideal (- rnd_d ideal 1.2)" "xmax g2 = rnd_f ideal (rnd_d ideal 1.2)"
    "ymin g2 = rnd_f ideal (- rnd_d ideal 0.8)" "ymax g2 = 1" by blast
  then have "map_option window_centre (resize_julia ideal 1000 1000 globals_zero) = Some (0, 1 / 10)"
    by (simp add: window_centre_def ideal_simps)
  with ieee_like_ideal show ?thesis by blast
qed

text \<open>
  The claim as stated fails: at time 0, in exact arithmetic, the window of
  \<open>Julia-palette.ino\<close> has its centre at \<open>(0, 0)\<close>, while the perturbed base point is
  \<open>(-0.94299, 0.3162)\<close>.
\<close>

theorem julia_window_centre_counterexample:
  "map_option window_centre (resize_julia_palette ideal 0 0 globals_zero) = Some (0, 0) \<and>
   map_option julia_c (resize_julia_palette ideal 0 0 globals_zero) = Some (- 0.94299, 0.3162) \<and>
   (0 :: real, 0 :: real) \<noteq> (- 0.94299, 0.3162)"
  by (simp add: resize_julia_palette_def julia_constant_ideal
      set_deltas_ok[OF faithful_ideal(1)] ideal_simps window_centre_def julia_c_def)


end
